theory Spec2Isabelle
  imports Main "HOL-Library.Word" "HOL-Library.Monad_Syntax"
begin

section \<open>Python values used by \<open>server/app.py\<close>\<close>

text \<open>
  A Python \<open>str\<close> is a sequence of Unicode code points, so it is a list of naturals
  (every code point of a real \<open>str\<close> is below \<open>0x110000\<close>); \<open>bytes\<close> is a list of
  8-bit words. \<open>lit\<close> turns an ASCII literal of the source into such a \<open>str\<close>.
\<close>

type_synonym pystr = "nat list"
type_synonym byte = "8 word"

definition lit :: "string \<Rightarrow> pystr" where
  "lit s = map of_char s"

text \<open>
  The value \<open>request.get_json()\<close> returns: \<open>None\<close>, a bool, an int, a float (kept as
  its 64 IEEE bits), a \<open>str\<close>, a list, or a dict (an association list read with
  \<open>map_of\<close>).
\<close>

datatype json =
    JNull
  | JBool bool
  | JInt int
  | JFloat "64 word"
  | JStr pystr
  | JArr "json list"
  | JObj "(pystr \<times> json) list"

text \<open>Python truthiness, as \<open>not data.get(field)\<close> tests it. A float is false exactly
  when it is \<open>0.0\<close> or \<open>-0.0\<close>: all bits but the sign are clear.\<close>

fun truthy :: "json \<Rightarrow> bool" where
  "truthy JNull = False"
| "truthy (JBool b) = b"
| "truthy (JInt i) = (i \<noteq> 0)"
| "truthy (JFloat w) = (take_bit 63 w \<noteq> 0)"
| "truthy (JStr s) = (s \<noteq> [])"
| "truthy (JArr xs) = (xs \<noteq> [])"
| "truthy (JObj kvs) = (kvs \<noteq> [])"

fun type_name :: "json \<Rightarrow> string" where
  "type_name JNull = ''NoneType''"
| "type_name (JBool b) = ''bool''"
| "type_name (JInt i) = ''int''"
| "type_name (JFloat w) = ''float''"
| "type_name (JStr s) = ''str''"
| "type_name (JArr xs) = ''list''"
| "type_name (JObj kvs) = ''dict''"

text \<open>An exception is its class and the text \<open>str(e)\<close> gives; the handler reads
  nothing else of it. \<open>OtherException\<close> is any other subclass of \<open>Exception\<close>;
  \<open>KeyboardInterrupt\<close>, \<open>SystemExit\<close> and \<open>GeneratorExit\<close> derive from
  \<open>BaseException\<close> only, so \<open>except Exception\<close> does not catch them.\<close>

datatype exc_class =
    AttributeError | KeyError | TypeError | UnicodeEncodeError | UnicodeDecodeError
  | HTTPException | OtherException
  | KeyboardInterrupt | SystemExit | GeneratorExit

datatype py_exc = Exc exc_class pystr

fun str_exc :: "py_exc \<Rightarrow> pystr" where
  "str_exc (Exc c m) = m"

text \<open>\<open>isinstance(e, Exception)\<close>: what the clause \<open>except Exception\<close> tests.\<close>

fun is_exception :: "py_exc \<Rightarrow> bool" where
  "is_exception (Exc KeyboardInterrupt m) = False"
| "is_exception (Exc SystemExit m) = False"
| "is_exception (Exc GeneratorExit m) = False"
| "is_exception (Exc c m) = True"

definition attribute_error :: "json \<Rightarrow> string \<Rightarrow> py_exc" where
  "attribute_error v name =
     Exc AttributeError
       (lit ([CHR 0x27] @ type_name v @ [CHR 0x27] @ '' object has no attribute ''
             @ [CHR 0x27] @ name @ [CHR 0x27]))"

text \<open>\<open>data.get(field)\<close>: only a dict has the method; a missing key gives \<open>None\<close>.\<close>

fun dict_get :: "json \<Rightarrow> pystr \<Rightarrow> py_exc + json" where
  "dict_get (JObj kvs) k = Inr (case map_of kvs k of None \<Rightarrow> JNull | Some v \<Rightarrow> v)"
| "dict_get v k = Inl (attribute_error v ''get'')"

text \<open>\<open>data[key]\<close> on a dict: \<open>KeyError\<close>, whose text is the \<open>repr\<close> of the key, when
  the key is missing; \<open>TypeError\<close> on a value that is no dict (the handler only
  reaches the subscripts after \<open>data.get\<close> succeeded, that is, on a dict).\<close>

fun subscript :: "json \<Rightarrow> string \<Rightarrow> py_exc + json" where
  "subscript (JObj kvs) k =
     (case map_of kvs (lit k) of
        None \<Rightarrow> Inl (Exc KeyError (lit ([CHR 0x27] @ k @ [CHR 0x27])))
      | Some v \<Rightarrow> Inr v)"
| "subscript (JStr s) k =
     Inl (Exc TypeError (lit (''string indices must be integers, not ''
                              @ [CHR 0x27] @ ''str'' @ [CHR 0x27])))"
| "subscript (JArr xs) k =
     Inl (Exc TypeError (lit ''list indices must be integers or slices, not str''))"
| "subscript v k =
     Inl (Exc TypeError (lit ([CHR 0x27] @ type_name v @ [CHR 0x27]
                              @ '' object is not subscriptable'')))"

section \<open>Validation of the required fields (lines 36-39)\<close>

definition required_fields :: "string list" where
  "required_fields = [''email'', ''programName'', ''organizationName'', ''htmlContent'']"

text \<open>The \<open>for\<close> loop: \<open>Inr (Some field)\<close> is the early \<open>return\<close> at the first field
  whose value is false, \<open>Inr None\<close> is the loop running to its end, \<open>Inl e\<close> is
  \<open>data.get\<close> raising.\<close>

fun validate :: "json \<Rightarrow> string list \<Rightarrow> py_exc + string option" where
  "validate data [] = Inr None"
| "validate data (field # fields) =
     (case dict_get data (lit field) of
        Inl e \<Rightarrow> Inl e
      | Inr v \<Rightarrow> if \<not> truthy v then Inr (Some field) else validate data fields)"

section \<open>The clock: \<open>datetime.now()\<close>, \<open>strftime\<close> and \<open>isoformat\<close>\<close>

text \<open>\<open>datetime.now()\<close> gives a naive local time: it has these seven fields and no
  time zone.\<close>

record datetime =
  year :: nat
  month :: nat
  day :: nat
  hour :: nat
  minute :: nat
  second :: nat
  microsecond :: nat

definition valid_datetime :: "datetime \<Rightarrow> bool" where
  "valid_datetime t \<longleftrightarrow>
     1 \<le> year t \<and> year t \<le> 9999 \<and> 1 \<le> month t \<and> month t \<le> 12 \<and>
     1 \<le> day t \<and> day t \<le> 31 \<and> hour t < 24 \<and> minute t < 60 \<and>
     second t < 60 \<and> microsecond t < 1000000"

definition digit :: "nat \<Rightarrow> char" where
  "digit n = ''0123456789'' ! (n mod 10)"

fun decimal :: "nat \<Rightarrow> string" where
  "decimal n = (if n < 10 then [digit n] else decimal (n div 10) @ [digit n])"

declare decimal.simps [simp del]

text \<open>\<open>zero_pad w n\<close> is C's \<open>%0wd\<close>: at least \<open>w\<close> digits, zeros in front.\<close>

definition zero_pad :: "nat \<Rightarrow> nat \<Rightarrow> string" where
  "zero_pad w n = replicate (w - length (decimal n)) CHR ''0'' @ decimal n"

definition month_names :: "string list" where
  "month_names =
     [''January'', ''February'', ''March'', ''April'', ''May'', ''June'', ''July'',
      ''August'', ''September'', ''October'', ''November'', ''December'']"

text \<open>The directives of the format at line 48, in the C locale the process starts in
  (the source never calls \<open>setlocale\<close>): \<open>%B\<close> the month's English name, \<open>%d\<close>,
  \<open>%I\<close> and \<open>%M\<close> two digits, \<open>%Y\<close> the year in decimal, \<open>%I\<close> the hour on the
  12-hour clock, \<open>%p\<close> AM or PM, and \<open>%Z\<close> the name of the time zone, which is the
  empty string for a naive \<open>datetime\<close>.\<close>

definition fmt_B :: "datetime \<Rightarrow> string" where
  "fmt_B t = (if 1 \<le> month t \<and> month t \<le> 12 then month_names ! (month t - 1) else [])"

definition fmt_I :: "datetime \<Rightarrow> string" where
  "fmt_I t = zero_pad 2 (if hour t mod 12 = 0 then 12 else hour t mod 12)"

definition fmt_p :: "datetime \<Rightarrow> string" where
  "fmt_p t = (if hour t < 12 then ''AM'' else ''PM'')"

definition fmt_Z :: "datetime \<Rightarrow> string" where
  "fmt_Z t = []"

text \<open>\<open>strftime('%B %d, %Y at %I:%M %p %Z')\<close>, directive by directive.\<close>

definition strftime_report :: "datetime \<Rightarrow> pystr" where
  "strftime_report t =
     lit (fmt_B t @ '' '' @ zero_pad 2 (day t) @ '', '' @ decimal (year t) @ '' at ''
          @ fmt_I t @ '':'' @ zero_pad 2 (minute t) @ '' '' @ fmt_p t @ '' '' @ fmt_Z t)"

text \<open>\<open>isoformat()\<close>: \<open>YYYY-MM-DDTHH:MM:SS\<close>, then \<open>.ffffff\<close> when the microseconds
  are not zero.\<close>

definition isoformat :: "datetime \<Rightarrow> pystr" where
  "isoformat t =
     lit (zero_pad 4 (year t) @ ''-'' @ zero_pad 2 (month t) @ ''-'' @ zero_pad 2 (day t)
          @ ''T'' @ zero_pad 2 (hour t) @ '':'' @ zero_pad 2 (minute t) @ '':''
          @ zero_pad 2 (second t)
          @ (if microsecond t = 0 then [] else ''.'' @ zero_pad 6 (microsecond t)))"

section \<open>The codecs: UTF-8 and base64\<close>

definition is_surrogate :: "nat \<Rightarrow> bool" where
  "is_surrogate c \<longleftrightarrow> 0xD800 \<le> c \<and> c \<le> 0xDFFF"

text \<open>The UTF-8 bytes of one code point (one to four bytes).\<close>

definition utf8_char :: "nat \<Rightarrow> byte list" where
  "utf8_char c =
     (if c < 0x80 then [of_nat c]
      else if c < 0x800 then [of_nat (0xC0 + c div 64), of_nat (0x80 + c mod 64)]
      else if c < 0x10000 then
        [of_nat (0xE0 + c div 4096), of_nat (0x80 + c div 64 mod 64),
         of_nat (0x80 + c mod 64)]
      else
        [of_nat (0xF0 + c div 262144), of_nat (0x80 + c div 4096 mod 64),
         of_nat (0x80 + c div 64 mod 64), of_nat (0x80 + c mod 64)])"

definition hex_digit :: "nat \<Rightarrow> char" where
  "hex_digit n = ''0123456789abcdef'' ! (n mod 16)"

text \<open>The \<open>UnicodeEncodeError\<close> of the strict UTF-8 encoder: it names the first run of
  surrogates, by its character when the run has one, by its positions otherwise.\<close>

definition surrogate_error :: "pystr \<Rightarrow> py_exc" where
  "surrogate_error s =
     (let i = length (takeWhile (\<lambda>c. \<not> is_surrogate c) s);
          n = length (takeWhile is_surrogate (drop i s));
          c = s ! i
      in Exc UnicodeEncodeError
           (lit ([CHR 0x27] @ ''utf-8'' @ [CHR 0x27] @ '' codec can'' @ [CHR 0x27]
                 @ ''t encode ''
                 @ (if n = 1 then
                      ''character '' @ [CHR 0x27, CHR 0x5C] @ ''u''
                      @ [hex_digit (c div 4096), hex_digit (c div 256),
                         hex_digit (c div 16), hex_digit c]
                      @ [CHR 0x27] @ '' in position '' @ decimal i
                    else ''characters in position '' @ decimal i @ ''-''
                         @ decimal (i + n - 1))
                 @ '': surrogates not allowed'')))"

text \<open>\<open>s.encode('utf-8')\<close> on a \<open>str\<close>: a surrogate code point cannot be encoded.\<close>

definition encode_utf8 :: "pystr \<Rightarrow> py_exc + byte list" where
  "encode_utf8 s =
     (case find is_surrogate s of
        Some c \<Rightarrow> Inl (surrogate_error s)
      | None \<Rightarrow> Inr (concat (map utf8_char s)))"

text \<open>\<open>html_content.encode('utf-8')\<close> on whatever the JSON field holds: only a
  \<open>str\<close> has the method.\<close>

fun encode_method :: "json \<Rightarrow> py_exc + byte list" where
  "encode_method (JStr s) = encode_utf8 s"
| "encode_method v = Inl (attribute_error v ''encode'')"

text \<open>The strict UTF-8 decoder of \<open>bytes.decode('utf-8')\<close>: \<open>None\<close> where it raises
  \<open>UnicodeDecodeError\<close> (an unexpected byte, an overlong form, a surrogate, a code
  point above \<open>0x10FFFF\<close>, or the data ending inside a character).\<close>

definition continuation :: "byte \<Rightarrow> bool" where
  "continuation b \<longleftrightarrow> 0x80 \<le> unat b \<and> unat b \<le> 0xBF"

definition low6 :: "byte \<Rightarrow> nat" where
  "low6 b = unat b mod 64"

fun utf8_decode :: "byte list \<Rightarrow> pystr option" where
  "utf8_decode [] = Some []"
| "utf8_decode (b0 # bs) =
     (let n0 = unat b0 in
      if n0 < 0x80 then map_option (\<lambda>r. n0 # r) (utf8_decode bs)
      else if 0xC2 \<le> n0 \<and> n0 \<le> 0xDF then
        (case bs of
           b1 # rest \<Rightarrow>
             if continuation b1
             then map_option (\<lambda>r. ((n0 - 0xC0) * 64 + low6 b1) # r) (utf8_decode rest)
             else None
         | _ \<Rightarrow> None)
      else if 0xE0 \<le> n0 \<and> n0 \<le> 0xEF then
        (case bs of
           b1 # b2 # rest \<Rightarrow>
             if (if n0 = 0xE0 then 0xA0 else 0x80) \<le> unat b1
                \<and> unat b1 \<le> (if n0 = 0xED then 0x9F else 0xBF) \<and> continuation b2
             then map_option
                    (\<lambda>r. ((n0 - 0xE0) * 4096 + low6 b1 * 64 + low6 b2) # r)
                    (utf8_decode rest)
             else None
         | _ \<Rightarrow> None)
      else if 0xF0 \<le> n0 \<and> n0 \<le> 0xF4 then
        (case bs of
           b1 # b2 # b3 # rest \<Rightarrow>
             if (if n0 = 0xF0 then 0x90 else 0x80) \<le> unat b1
                \<and> unat b1 \<le> (if n0 = 0xF4 then 0x8F else 0xBF)
                \<and> continuation b2 \<and> continuation b3
             then map_option
                    (\<lambda>r. ((n0 - 0xF0) * 262144 + low6 b1 * 4096 + low6 b2 * 64
                          + low6 b3) # r)
                    (utf8_decode rest)
             else None
         | _ \<Rightarrow> None)
      else None)"

text \<open>The base64 alphabet of RFC 4648 and \<open>base64.b64encode\<close>: three bytes give four
  characters; one or two bytes left over give two or three characters and \<open>=\<close>
  padding. The result is \<open>bytes\<close>.\<close>

definition b64_alphabet :: "string" where
  "b64_alphabet =
     ''ABCDEFGHIJKLMNOPQRSTUVWXYZabcdefghijklmnopqrstuvwxyz0123456789+/''"

definition b64char :: "nat \<Rightarrow> byte" where
  "b64char n = of_char (b64_alphabet ! n)"

definition b64pad :: "byte" where
  "b64pad = of_char CHR ''=''"

fun b64encode :: "byte list \<Rightarrow> byte list" where
  "b64encode [] = []"
| "b64encode [a] =
     (let x = unat a
      in [b64char (x div 4), b64char (x mod 4 * 16), b64pad, b64pad])"
| "b64encode [a, b] =
     (let x = unat a; y = unat b
      in [b64char (x div 4), b64char (x mod 4 * 16 + y div 16),
          b64char (y mod 16 * 4), b64pad])"
| "b64encode (a # b # c # rest) =
     (let x = unat a; y = unat b; z = unat c
      in [b64char (x div 4), b64char (x mod 4 * 16 + y div 16),
          b64char (y mod 16 * 4 + z div 64), b64char (z mod 64)] @ b64encode rest)"

text \<open>The decoder the round trip is measured with: the RFC 4648 decoder on a \<open>str\<close>,
  \<open>None\<close> on anything but whole groups of four alphabet characters with padding in
  the last group only. What it accepts, \<open>base64.b64decode\<close> decodes to the same
  bytes.\<close>

definition b64val :: "nat \<Rightarrow> nat option" where
  "b64val c =
     (if 65 \<le> c \<and> c \<le> 90 then Some (c - 65)
      else if 97 \<le> c \<and> c \<le> 122 then Some (c - 71)
      else if 48 \<le> c \<and> c \<le> 57 then Some (c + 4)
      else if c = 43 then Some 62
      else if c = 47 then Some 63
      else None)"

fun b64decode :: "pystr \<Rightarrow> byte list option" where
  "b64decode [] = Some []"
| "b64decode (c0 # c1 # c2 # c3 # rest) =
     (case (b64val c0, b64val c1) of
        (Some v0, Some v1) \<Rightarrow>
          if c2 = 61 \<and> c3 = 61 \<and> rest = [] then Some [of_nat (v0 * 4 + v1 div 16)]
          else
            (case b64val c2 of
               None \<Rightarrow> None
             | Some v2 \<Rightarrow>
                 if c3 = 61 \<and> rest = [] then
                   Some [of_nat (v0 * 4 + v1 div 16), of_nat (v1 mod 16 * 16 + v2 div 4)]
                 else
                   (case b64val c3 of
                      None \<Rightarrow> None
                    | Some v3 \<Rightarrow>
                        map_option
                          (\<lambda>bs. of_nat (v0 * 4 + v1 div 16)
                                # of_nat (v1 mod 16 * 16 + v2 div 4)
                                # of_nat (v2 mod 4 * 64 + v3) # bs)
                          (b64decode rest)))
      | _ \<Rightarrow> None)"
| "b64decode cs = None"

section \<open>The mail capability, the environment and the state\<close>

text \<open>One call of \<open>send_email\<close>: its four keyword arguments. \<open>to\<close> is whatever the
  JSON field \<open>email\<close> holds; an attachment is the dict built at lines 77-82.\<close>

record attachment =
  filename :: pystr
  content :: pystr
  contentType :: pystr
  encoding :: pystr

record mail_call =
  mail_to :: json
  mail_subject :: pystr
  mail_text :: pystr
  mail_attachments :: "attachment list"

text \<open>
  What the handler takes from outside \<open>app.py\<close>:
  \<^item> \<open>send_email\<close>, imported from \<open>replitmail\<close>: it returns normally (\<open>None\<close>) or raises
    (\<open>Some e\<close>, of any class);
  \<^item> \<open>clock\<close>: the reading \<open>datetime.now()\<close> gives at the n-th read of the process;
  \<^item> \<open>stdout_rejects\<close>: the exception \<open>print\<close> raises on a text that is not pure
    ASCII, when the encoding of the process's standard output cannot take it (\<open>None\<close>
    when it can);
  \<^item> of Python itself: \<open>str.isalnum\<close> on the code points from 128 on (the Unicode
    character database), \<open>str()\<close> of a float, a list or a dict, and the text of the
    \<open>UnicodeDecodeError\<close> of given bytes.
\<close>

record env =
  send_email :: "mail_call \<Rightarrow> py_exc option"
  clock :: "nat \<Rightarrow> datetime"
  stdout_rejects :: "pystr \<Rightarrow> py_exc option"
  isalnum_nonascii :: "nat \<Rightarrow> bool"
  str_of :: "json \<Rightarrow> pystr"
  decode_error_text :: "byte list \<Rightarrow> pystr"

text \<open>What a request can change: how often the clock was read, the calls made to
  \<open>send_email\<close> so far (oldest first), and the lines printed.\<close>

record world =
  ticks :: nat
  calls :: "mail_call list"
  stdout :: "pystr list"

definition datetime_now :: "env \<Rightarrow> world \<Rightarrow> datetime \<times> world" where
  "datetime_now E s = (clock E (ticks s), s\<lparr>ticks := Suc (ticks s)\<rparr>)"

text \<open>\<open>print(text)\<close> on an open standard output: the ASCII characters are in every
  encoding a standard output has, so a pure ASCII text is always written; any other
  text is written or raises, as the encoding decides.\<close>

definition is_ascii :: "pystr \<Rightarrow> bool" where
  "is_ascii t \<longleftrightarrow> list_all (\<lambda>c. c < 128) t"

definition print_line :: "env \<Rightarrow> pystr \<Rightarrow> py_exc option" where
  "print_line E t = (if is_ascii t then None else stdout_rejects E t)"

text \<open>\<open>bytes.decode('utf-8')\<close>.\<close>

definition bytes_decode :: "env \<Rightarrow> byte list \<Rightarrow> py_exc + pystr" where
  "bytes_decode E bs =
     (case utf8_decode bs of
        Some s \<Rightarrow> Inr s
      | None \<Rightarrow> Inl (Exc UnicodeDecodeError (decode_error_text E bs)))"

text \<open>\<open>{value}\<close> inside an f-string is \<open>str(value)\<close>: a \<open>str\<close> goes in as it is,
  \<open>None\<close> and the booleans by their Python names, an int in decimal.\<close>

fun format_value :: "env \<Rightarrow> json \<Rightarrow> pystr" where
  "format_value E (JStr s) = s"
| "format_value E JNull = lit ''None''"
| "format_value E (JBool b) = lit (if b then ''True'' else ''False'')"
| "format_value E (JInt i) = lit ((if i < 0 then ''-'' else []) @ decimal (nat \<bar>i\<bar>))"
| "format_value E v = str_of E v"

text \<open>What \<open>request.get_json()\<close> does: it returns the parsed value, or it raises one of
  werkzeug's \<open>HTTPException\<close>s (415 when the content type is not JSON, 400 when the body
  does not parse). The text \<open>str(e)\<close> of these is \<open>"<code> <name>: <description>"\<close>,
  pure ASCII: it is kept as 7-bit characters.\<close>

datatype get_json_result = Raises "7 word list" | Returns json

definition ascii_text :: "7 word list \<Rightarrow> pystr" where
  "ascii_text m = map unat m"

section \<open>The report mailer (lines 41-83)\<close>

text \<open>Lines 42-45: the four subscripts, in the source's order.\<close>

definition extract_fields :: "json \<Rightarrow> py_exc + (json \<times> json \<times> json \<times> json)" where
  "extract_fields data =
     (case subscript data ''email'' of
        Inl e \<Rightarrow> Inl e
      | Inr user_email \<Rightarrow>
     (case subscript data ''programName'' of
        Inl e \<Rightarrow> Inl e
      | Inr program_name \<Rightarrow>
     (case subscript data ''organizationName'' of
        Inl e \<Rightarrow> Inl e
      | Inr organization_name \<Rightarrow>
     (case subscript data ''htmlContent'' of
        Inl e \<Rightarrow> Inl e
      | Inr html_content \<Rightarrow>
          Inr (user_email, program_name, organization_name, html_content)))))"

definition newline :: pystr where
  "newline = [10]"

text \<open>Lines 51-62: the template, with the three interpolated texts as arguments.\<close>

definition email_body :: "pystr \<Rightarrow> pystr \<Rightarrow> pystr \<Rightarrow> pystr" where
  "email_body program_name organization_name current_datetime =
     lit ''Hello,'' @ newline @ newline
     @ lit ''Attached is the evaluation plan you requested from the LogicalOutcomes Evaluation Planner.''
     @ newline @ newline
     @ lit ''It is for '' @ program_name @ lit '' delivered by '' @ organization_name
     @ lit ''. It was generated on '' @ current_datetime @ lit ''.''
     @ newline @ newline
     @ lit ''This is just a draft. If it is inaccurate, feel free to re-try the Evaluation Planner app but add additional useful information in the form.''
     @ newline @ newline
     @ lit ''If you have any questions, contact support@logicaloutcomes.com.''
     @ newline @ newline
     @ lit ''Best regards,'' @ newline
     @ lit ''LogicalOutcomes Evaluation Planner''"

text \<open>Line 66: \<open>c.isalnum() or c in "._-"\<close>, and the \<open>join\<close> of the characters that
  pass. On ASCII \<open>isalnum\<close> is the digits and the letters.\<close>

definition ascii_alnum :: "nat \<Rightarrow> bool" where
  "ascii_alnum c \<longleftrightarrow> 48 \<le> c \<and> c \<le> 57 \<or> 65 \<le> c \<and> c \<le> 90 \<or> 97 \<le> c \<and> c \<le> 122"

definition isalnum :: "env \<Rightarrow> nat \<Rightarrow> bool" where
  "isalnum E c = (if c < 128 then ascii_alnum c else isalnum_nonascii E c)"

definition keep_char :: "env \<Rightarrow> nat \<Rightarrow> bool" where
  "keep_char E c \<longleftrightarrow> isalnum E c \<or> c \<in> set (lit ''._-'')"

definition sanitize :: "env \<Rightarrow> pystr \<Rightarrow> pystr" where
  "sanitize E name = filter (keep_char E) name"

text \<open>Lines 48-82 after the clock is read: the arguments of the one \<open>send_email\<close>
  call, or the exception of \<open>encode\<close> or \<open>decode\<close>.\<close>

definition build_call ::
  "env \<Rightarrow> datetime \<Rightarrow> json \<times> json \<times> json \<times> json \<Rightarrow> py_exc + mail_call" where
  "build_call E now vals =
     (case vals of
        (user_email, program_name, organization_name, html_content) \<Rightarrow>
          (let current_datetime = strftime_report now;
               body = email_body (format_value E program_name)
                        (format_value E organization_name) current_datetime;
               fname = sanitize E
                        (format_value E organization_name @ lit ''_''
                         @ format_value E program_name @ lit ''_Evaluation_Plan.html'')
           in case encode_method html_content of
                Inl e \<Rightarrow> Inl e
              | Inr html_bytes \<Rightarrow>
                  (case bytes_decode E (b64encode html_bytes) of
                     Inl e \<Rightarrow> Inl e
                   | Inr base64_content \<Rightarrow>
                       Inr \<lparr>mail_to = user_email,
                            mail_subject =
                              lit ''Evaluation Plan for '' @ format_value E program_name
                              @ lit '' - '' @ format_value E organization_name,
                            mail_text = body,
                            mail_attachments =
                              [\<lparr>filename = fname, content = base64_content,
                                contentType = lit ''text/html'',
                                encoding = lit ''base64''\<rparr>]\<rparr>)))"

section \<open>The two endpoints\<close>

type_synonym response = "nat \<times> json"

text \<open>\<open>GET /health\<close> (lines 26-28).\<close>

definition health_check :: "env \<Rightarrow> world \<Rightarrow> response \<times> world" where
  "health_check E s =
     (case datetime_now E s of
        (now, s1) \<Rightarrow>
          ((200, JObj [(lit ''status'', JStr (lit ''healthy'')),
                       (lit ''timestamp'', JStr (isoformat now))]), s1))"

text \<open>The body of the \<open>try\<close> (lines 33-89). The result is the response returned, or the
  exception raised, with the state at that point.\<close>

definition send_report_try ::
  "env \<Rightarrow> get_json_result \<Rightarrow> world \<Rightarrow> (py_exc + response) \<times> world" where
  "send_report_try E body s =
     (case body of
        Raises m \<Rightarrow> (Inl (Exc HTTPException (ascii_text m)), s)
      | Returns data \<Rightarrow>
          (case validate data required_fields of
             Inl e \<Rightarrow> (Inl e, s)
           | Inr (Some field) \<Rightarrow>
               (Inr (400, JObj [(lit ''error'',
                                 JStr (lit ''Missing required field: '' @ lit field))]), s)
           | Inr None \<Rightarrow>
               (case extract_fields data of
                  Inl e \<Rightarrow> (Inl e, s)
                | Inr vals \<Rightarrow>
                    (case datetime_now E s of
                       (now, s1) \<Rightarrow>
                         (case build_call E now vals of
                            Inl e \<Rightarrow> (Inl e, s1)
                          | Inr call \<Rightarrow>
                              (let s2 = s1\<lparr>calls := calls s1 @ [call]\<rparr>
                               in case send_email E call of
                                    Some e \<Rightarrow> (Inl e, s2)
                                  | None \<Rightarrow>
                                      (case datetime_now E s2 of
                                         (now2, s3) \<Rightarrow>
                                           (Inr (200,
                                              JObj [(lit ''success'', JBool True),
                                                    (lit ''message'',
                                                     JStr (lit ''Email sent successfully to ''
                                                           @ format_value E (fst vals))),
                                                    (lit ''timestamp'',
                                                     JStr (isoformat now2))]),
                                            s3))))))))"

text \<open>\<open>POST /send-report\<close> (lines 30-95): the \<open>try\<close> and its \<open>except Exception\<close>. The
  handler returns a response (\<open>Inr\<close>) or an exception leaves it (\<open>Inl\<close>): one that is no
  \<open>Exception\<close> is not caught, and the \<open>print\<close> of line 92 runs before the 500 response
  is built, so what it raises leaves the handler too.\<close>

definition send_report ::
  "env \<Rightarrow> get_json_result \<Rightarrow> world \<Rightarrow> (py_exc + response) \<times> world" where
  "send_report E body s =
     (case send_report_try E body s of
        (Inr resp, s1) \<Rightarrow> (Inr resp, s1)
      | (Inl e, s1) \<Rightarrow>
          if is_exception e then
            (case print_line E (lit ''Error sending email: '' @ str_exc e) of
               Some raised \<Rightarrow> (Inl raised, s1)
             | None \<Rightarrow>
                 (Inr (500, JObj [(lit ''error'',
                                   JStr (lit ''Failed to send email: '' @ str_exc e))]),
                  s1\<lparr>stdout := stdout s1 @ [lit ''Error sending email: '' @ str_exc e]\<rparr>))
          else (Inl e, s1))"

text \<open>The two routes of the application, and the handlers applied to a list of
  requests one after the other, the state carried from each to the next; a request whose
  handler an exception left is answered by Flask, and the next one is handled in the
  state that handler left.\<close>

datatype request = GET_health | POST_send_report get_json_result

fun handle :: "env \<Rightarrow> request \<Rightarrow> world \<Rightarrow> (py_exc + response) \<times> world" where
  "handle E GET_health s = (case health_check E s of (resp, s1) \<Rightarrow> (Inr resp, s1))"
| "handle E (POST_send_report body) s = send_report E body s"

fun serve :: "env \<Rightarrow> request list \<Rightarrow> world \<Rightarrow> (py_exc + response) list \<times> world" where
  "serve E [] s = ([], s)"
| "serve E (r # rs) s =
     (case handle E r s of
        (out, s1) \<Rightarrow> (case serve E rs s1 of (outs, s2) \<Rightarrow> (out # outs, s2)))"

section \<open>Vocabulary of the properties\<close>

text \<open>The value \<open>data.get(field)\<close> has on a dict, and the test the validation loop
  makes on it: a field is missing when the key is absent or its value is false
  (\<open>null\<close>, \<open>false\<close>, zero, an empty string, list or object).\<close>

definition field_value :: "(pystr \<times> json) list \<Rightarrow> string \<Rightarrow> json" where
  "field_value kvs field = (case map_of kvs (lit field) of None \<Rightarrow> JNull | Some v \<Rightarrow> v)"

definition field_missing :: "(pystr \<times> json) list \<Rightarrow> string \<Rightarrow> bool" where
  "field_missing kvs field \<longleftrightarrow> \<not> truthy (field_value kvs field)"

text \<open>A request is well formed when none of the four fields is missing.\<close>

definition well_formed :: "(pystr \<times> json) list \<Rightarrow> bool" where
  "well_formed kvs \<longleftrightarrow>
     truthy (field_value kvs ''email'') \<and> truthy (field_value kvs ''programName'') \<and>
     truthy (field_value kvs ''organizationName'') \<and>
     truthy (field_value kvs ''htmlContent'')"

text \<open>The four values lines 42-45 read from a dict.\<close>

definition request_values :: "(pystr \<times> json) list \<Rightarrow> json \<times> json \<times> json \<times> json" where
  "request_values kvs =
     (field_value kvs ''email'', field_value kvs ''programName'',
      field_value kvs ''organizationName'', field_value kvs ''htmlContent'')"

text \<open>The status of the response the handler returned; there is none when an
  exception left the handler.\<close>

fun status_of :: "py_exc + response \<Rightarrow> nat option" where
  "status_of (Inr (code, body)) = Some code"
| "status_of (Inl e) = None"

text \<open>The calls of \<open>send_email\<close> made while one request is handled: what the handler
  added to the record of calls.\<close>

definition sent_calls :: "env \<Rightarrow> get_json_result \<Rightarrow> world \<Rightarrow> mail_call list" where
  "sent_calls E body s = drop (length (calls s)) (calls (snd (send_report E body s)))"

text \<open>Whether \<open>get_json\<close> returned a dict.\<close>

fun returns_dict :: "get_json_result \<Rightarrow> bool" where
  "returns_dict (Returns (JObj kvs)) = True"
| "returns_dict body = False"

text \<open>The text \<open>str(e)\<close> of the exception the handler catches when \<open>get_json\<close>
  raised or returned something that is no dict.\<close>

fun no_dict_text :: "get_json_result \<Rightarrow> pystr" where
  "no_dict_text (Raises m) = ascii_text m"
| "no_dict_text (Returns v) = str_exc (attribute_error v ''get'')"

subsection \<open>Reading an ISO 8601 timestamp\<close>

text \<open>What a reader of the response takes from a timestamp
  \<open>YYYY-MM-DDTHH:MM:SS\<close> or \<open>YYYY-MM-DDTHH:MM:SS.ffffff\<close> of ISO 8601: the calendar
  date and the time of day. \<open>read_digits w s acc\<close> reads exactly \<open>w\<close> decimal digits
  from the front of \<open>s\<close>; \<open>expect_char\<close> reads one given character.\<close>

fun read_digits :: "nat \<Rightarrow> pystr \<Rightarrow> nat \<Rightarrow> (nat \<times> pystr) option" where
  "read_digits 0 s acc = Some (acc, s)"
| "read_digits (Suc w) [] acc = None"
| "read_digits (Suc w) (c # s) acc =
     (if 48 \<le> c \<and> c \<le> 57 then read_digits w s (10 * acc + (c - 48)) else None)"

fun expect_char :: "char \<Rightarrow> pystr \<Rightarrow> pystr option" where
  "expect_char ch [] = None"
| "expect_char ch (c # s) = (if c = of_char ch then Some s else None)"

fun read_fraction :: "pystr \<Rightarrow> nat option" where
  "read_fraction [] = Some 0"
| "read_fraction (c # s) =
     (if c = of_char CHR ''.'' then
        (case read_digits 6 s 0 of
           Some (us, []) \<Rightarrow> Some us
         | _ \<Rightarrow> None)
      else None)"

definition iso8601_read :: "pystr \<Rightarrow> datetime option" where
  "iso8601_read s =
     do {
       (y, s1) \<leftarrow> read_digits 4 s 0;
       s2 \<leftarrow> expect_char CHR ''-'' s1;
       (mo, s3) \<leftarrow> read_digits 2 s2 0;
       s4 \<leftarrow> expect_char CHR ''-'' s3;
       (d, s5) \<leftarrow> read_digits 2 s4 0;
       s6 \<leftarrow> expect_char CHR ''T'' s5;
       (h, s7) \<leftarrow> read_digits 2 s6 0;
       s8 \<leftarrow> expect_char CHR '':'' s7;
       (mi, s9) \<leftarrow> read_digits 2 s8 0;
       s10 \<leftarrow> expect_char CHR '':'' s9;
       (sec, s11) \<leftarrow> read_digits 2 s10 0;
       us \<leftarrow> read_fraction s11;
       Some \<lparr>year = y, month = mo, day = d, hour = h, minute = mi, second = sec,
             microsecond = us\<rparr>
     }"

subsection \<open>The timestamp of the message, as the specification writes it\<close>

text \<open>\<open>Month Day, Year at HH:MM AM/PM\<close>: the English name of the month, the day of the
  month in two digits, the year, the hour on the 12-hour clock and the minute in two
  digits each, and \<open>AM\<close> before noon, \<open>PM\<close> from noon on.\<close>

definition spec_month :: "nat \<Rightarrow> string" where
  "spec_month m =
     (if m = 1 then ''January'' else if m = 2 then ''February''
      else if m = 3 then ''March'' else if m = 4 then ''April''
      else if m = 5 then ''May'' else if m = 6 then ''June''
      else if m = 7 then ''July'' else if m = 8 then ''August''
      else if m = 9 then ''September'' else if m = 10 then ''October''
      else if m = 11 then ''November'' else ''December'')"

definition two_digits :: "nat \<Rightarrow> string" where
  "two_digits n = [digit (n div 10), digit n]"

definition hour12 :: "nat \<Rightarrow> nat" where
  "hour12 h = (if h = 0 then 12 else if h \<le> 12 then h else h - 12)"

definition spec_timestamp :: "datetime \<Rightarrow> string" where
  "spec_timestamp t =
     spec_month (month t) @ '' '' @ two_digits (day t) @ '', '' @ decimal (year t)
     @ '' at '' @ two_digits (hour12 (hour t)) @ '':'' @ two_digits (minute t) @ '' ''
     @ (if hour t < 12 then ''AM'' else ''PM'')"

section \<open>Concrete requests and environments\<close>

text \<open>A clock that reads 12 October 2026, 15:05:07, and one second more at each later
  read; a \<open>send_email\<close> that always returns normally, one that always raises an
  \<open>Exception\<close> with the text \<open>SMTP timeout\<close>, one that raises an \<open>Exception\<close> whose
  text is a lone surrogate, and one that ends in \<open>sys.exit("SMTP timeout")\<close>; a standard
  output in UTF-8, which raises what the UTF-8 encoder raises; a state in which nothing
  has happened yet.\<close>

definition october_clock :: "nat \<Rightarrow> datetime" where
  "october_clock n =
     \<lparr>year = 2026, month = 10, day = 12, hour = 15, minute = 5, second = 7 + n,
      microsecond = 0\<rparr>"

definition always_delivers :: "mail_call \<Rightarrow> py_exc option" where
  "always_delivers c = None"

definition smtp_timeout :: "mail_call \<Rightarrow> py_exc option" where
  "smtp_timeout c = Some (Exc OtherException (lit ''SMTP timeout''))"

definition surrogate_failure :: "mail_call \<Rightarrow> py_exc option" where
  "surrogate_failure c = Some (Exc OtherException [0xD800])"

definition exits :: "mail_call \<Rightarrow> py_exc option" where
  "exits c = Some (Exc SystemExit (lit ''SMTP timeout''))"

definition utf8_console :: "pystr \<Rightarrow> py_exc option" where
  "utf8_console t = (case encode_utf8 t of Inl e \<Rightarrow> Some e | Inr bs \<Rightarrow> None)"

definition ascii_only :: "nat \<Rightarrow> bool" where
  "ascii_only c = False"

definition str_of_unused :: "json \<Rightarrow> pystr" where
  "str_of_unused v = []"

definition decode_text_unused :: "byte list \<Rightarrow> pystr" where
  "decode_text_unused bs = []"

definition delivering_env :: env where
  "delivering_env =
     \<lparr>send_email = always_delivers, clock = october_clock, stdout_rejects = utf8_console,
      isalnum_nonascii = ascii_only, str_of = str_of_unused,
      decode_error_text = decode_text_unused\<rparr>"

definition failing_env :: env where
  "failing_env =
     \<lparr>send_email = smtp_timeout, clock = october_clock, stdout_rejects = utf8_console,
      isalnum_nonascii = ascii_only, str_of = str_of_unused,
      decode_error_text = decode_text_unused\<rparr>"

definition garbled_env :: env where
  "garbled_env =
     \<lparr>send_email = surrogate_failure, clock = october_clock, stdout_rejects = utf8_console,
      isalnum_nonascii = ascii_only, str_of = str_of_unused,
      decode_error_text = decode_text_unused\<rparr>"

definition exiting_env :: env where
  "exiting_env =
     \<lparr>send_email = exits, clock = october_clock, stdout_rejects = utf8_console,
      isalnum_nonascii = ascii_only, str_of = str_of_unused,
      decode_error_text = decode_text_unused\<rparr>"

definition idle_world :: world where
  "idle_world = \<lparr>ticks = 0, calls = [], stdout = []\<rparr>"

text \<open>The request of the filename example; the same request with a lone surrogate as
  its HTML; the same request with the JSON value \<open>true\<close> as its \<open>email\<close>; and a request
  whose \<open>programName\<close> is the number 0 and whose last two fields are absent.\<close>

definition acme_fields :: "(pystr \<times> json) list" where
  "acme_fields =
     [(lit ''email'', JStr (lit ''ann@example.org'')),
      (lit ''programName'', JStr (lit ''Youth/2024'')),
      (lit ''organizationName'', JStr (lit ''Acme Corp!'')),
      (lit ''htmlContent'', JStr (lit ''<p>Plan</p>''))]"

definition surrogate_fields :: "(pystr \<times> json) list" where
  "surrogate_fields =
     [(lit ''email'', JStr (lit ''ann@example.org'')),
      (lit ''programName'', JStr (lit ''Youth/2024'')),
      (lit ''organizationName'', JStr (lit ''Acme Corp!'')),
      (lit ''htmlContent'', JStr [0xD800])]"

definition true_email_fields :: "(pystr \<times> json) list" where
  "true_email_fields =
     [(lit ''email'', JBool True),
      (lit ''programName'', JStr (lit ''Youth/2024'')),
      (lit ''organizationName'', JStr (lit ''Acme Corp!'')),
      (lit ''htmlContent'', JStr (lit ''<p>Plan</p>''))]"

definition incomplete_fields :: "(pystr \<times> json) list" where
  "incomplete_fields =
     [(lit ''email'', JStr (lit ''ann@example.org'')),
      (lit ''programName'', JInt 0)]"

text \<open>The UTF-8 bytes of the HTML of the first request, and the call of \<open>send_email\<close>
  this request leads to when the clock reads 15:05:07 on 12 October 2026; \<open>[10, 10]\<close>
  is the empty line between two paragraphs.\<close>

definition plan_html_bytes :: "byte list" where
  "plan_html_bytes = map of_char ''<p>Plan</p>''"

definition acme_call :: mail_call where
  "acme_call =
     \<lparr>mail_to = JStr (lit ''ann@example.org''),
      mail_subject = lit ''Evaluation Plan for Youth/2024 - Acme Corp!'',
      mail_text =
        lit ''Hello,'' @ [10, 10]
        @ lit ''Attached is the evaluation plan you requested from the LogicalOutcomes Evaluation Planner.''
        @ [10, 10]
        @ lit ''It is for Youth/2024 delivered by Acme Corp!. It was generated on October 12, 2026 at 03:05 PM .''
        @ [10, 10]
        @ lit ''This is just a draft. If it is inaccurate, feel free to re-try the Evaluation Planner app but add additional useful information in the form.''
        @ [10, 10]
        @ lit ''If you have any questions, contact support@logicaloutcomes.com.''
        @ [10, 10]
        @ lit ''Best regards,'' @ [10]
        @ lit ''LogicalOutcomes Evaluation Planner'',
      mail_attachments =
        [\<lparr>filename = lit ''AcmeCorp_Youth2024_Evaluation_Plan.html'',
          content = lit ''PHA+UGxhbjwvcD4='',
          contentType = lit ''text/html'', encoding = lit ''base64''\<rparr>]\<rparr>"

text \<open>A later moment of the same server: the clock has been read twice, one call is on
  record, and a clock that is two reads behind the first one.\<close>

definition later_world :: world where
  "later_world = \<lparr>ticks = 2, calls = [acme_call], stdout = [lit ''started'']\<rparr>"

definition later_clock :: "nat \<Rightarrow> datetime" where
  "later_clock n = october_clock (n - 2)"

section \<open>Reading a dict and validating it\<close>

lemma lit_eq_iff [simp]: "lit a = lit b \<longleftrightarrow> a = b"
  by (simp add: lit_def inj_map_eq_map inj_on_def)

lemma lit_append: "lit (a @ b) = lit a @ lit b"
  by (simp add: lit_def)

lemma lit_Nil_iff [simp]: "lit a = [] \<longleftrightarrow> a = []"
  by (simp add: lit_def)

lemma dict_get_field: "dict_get (JObj kvs) (lit f) = Inr (field_value kvs f)"
  by (simp add: field_value_def)

lemma validate_dict:
  "validate (JObj kvs) fs = Inr (find (field_missing kvs) fs)"
  by (induction fs) (simp_all add: dict_get_field field_missing_def del: dict_get.simps)

lemma validate_no_dict:
  "\<not> returns_dict (Returns v) \<Longrightarrow> validate v required_fields = Inl (attribute_error v ''get'')"
  by (cases v) (simp_all add: required_fields_def)

lemma subscript_field:
  "truthy (field_value kvs f) \<Longrightarrow> subscript (JObj kvs) f = Inr (field_value kvs f)"
  by (auto simp: field_value_def split: option.splits)

lemma extract_well_formed:
  "well_formed kvs \<Longrightarrow>
   extract_fields (JObj kvs) =
     Inr (request_values kvs)"
  by (simp add: well_formed_def extract_fields_def subscript_field request_values_def
      del: subscript.simps)

lemma find_required_None:
  "find (field_missing kvs) required_fields = None \<longleftrightarrow> well_formed kvs"
  by (auto simp: required_fields_def well_formed_def field_missing_def)

section \<open>The base64 round trip\<close>

text \<open>Every character \<open>b64encode\<close> writes is one of the alphabet, different from the
  padding, and the decoder's value of it is the sextet it was written for.\<close>

lemma b64val_b64char_all: "\<forall>n\<in>set [0..<64]. b64val (unat (b64char n)) = Some n"
  by code_simp

lemma b64val_b64char: "n < 64 \<Longrightarrow> b64val (unat (b64char n)) = Some n"
  using b64val_b64char_all by simp

lemma unat_b64pad: "unat b64pad = 61"
  by (simp add: b64pad_def)

lemma b64char_not_pad_all: "\<forall>n\<in>set [0..<64]. unat (b64char n) \<noteq> 61"
  by code_simp

lemma b64char_not_pad: "n < 64 \<Longrightarrow> unat (b64char n) \<noteq> 61"
  using b64char_not_pad_all by simp

lemma byte_lt: "unat (a :: byte) < 256"
  using unsigned_less [of a, where 'a = nat] by simp

lemma sextet_hi: "(x::nat) < 256 \<Longrightarrow> x div 4 < 64"
  by simp

lemma sextet_mid1: "(y::nat) < 256 \<Longrightarrow> x mod 4 * 16 + y div 16 < 64"
proof -
  assume "y < 256"
  then have "y div 16 < 16" by simp
  moreover have "x mod 4 < 4" by simp
  ultimately show ?thesis by linarith
qed

lemma sextet_mid2: "(z::nat) < 256 \<Longrightarrow> y mod 16 * 4 + z div 64 < 64"
proof -
  assume "z < 256"
  then have "z div 64 < 4" by simp
  moreover have "y mod 16 < 16" by simp
  ultimately show ?thesis by linarith
qed

lemma sextet_tail1: "(x::nat) mod 4 * 16 < 64"
proof -
  have "x mod 4 < 4" by simp
  then show ?thesis by linarith
qed

lemma sextet_tail2: "(y::nat) mod 16 * 4 < 64"
proof -
  have "y mod 16 < 16" by simp
  then show ?thesis by linarith
qed

lemma join_first: "(y::nat) < 256 \<Longrightarrow> x div 4 * 4 + (x mod 4 * 16 + y div 16) div 16 = x"
proof -
  assume "y < 256"
  then have "y div 16 < 16" by simp
  then have "(x mod 4 * 16 + y div 16) div 16 = x mod 4" by simp
  then show ?thesis by simp
qed

lemma join_second:
  "(y::nat) < 256 \<Longrightarrow> (z::nat) < 256 \<Longrightarrow>
   (x mod 4 * 16 + y div 16) mod 16 * 16 + (y mod 16 * 4 + z div 64) div 4 = y"
proof -
  assume "y < 256" "z < 256"
  then have "z div 64 < 4" "y div 16 < 16" by simp_all
  then have a: "(y mod 16 * 4 + z div 64) div 4 = y mod 16" 
    and b: "(x mod 4 * 16 + y div 16) mod 16 = y div 16" by simp_all
  show ?thesis unfolding a b by simp
qed

lemma join_third: "(z::nat) < 256 \<Longrightarrow> (y mod 16 * 4 + z div 64) mod 4 * 64 + z mod 64 = z"
proof -
  assume "z < 256"
  then have "z div 64 < 4" by simp
  then have a: "(y mod 16 * 4 + z div 64) mod 4 = z div 64" by simp
  show ?thesis unfolding a by simp
qed

lemma join_second_tail:
  "(y::nat) < 256 \<Longrightarrow> (x mod 4 * 16 + y div 16) mod 16 * 16 + y mod 16 * 4 div 4 = y"
proof -
  assume "y < 256" 
  then have "y div 16 < 16" by simp_all
  then have b: "(x mod 4 * 16 + y div 16) mod 16 = y div 16" by simp_all
  show ?thesis unfolding b by simp
qed

lemma join_first_tail: "(x::nat) div 4 * 4 + x mod 4 * 16 div 16 = x"
  by simp

lemma of_nat_unat_byte: "n = unat a \<Longrightarrow> (of_nat n :: byte) = a"
  by simp

lemma b64decode_pad2:
  assumes "v0 < 64" "v1 < 64"
  shows "b64decode [unat (b64char v0), unat (b64char v1), unat b64pad, unat b64pad] =
           Some [of_nat (v0 * 4 + v1 div 16)]"
  using assms by (simp add: b64val_b64char unat_b64pad)

lemma b64decode_pad1:
  assumes "v0 < 64" "v1 < 64" "v2 < 64"
  shows "b64decode [unat (b64char v0), unat (b64char v1), unat (b64char v2), unat b64pad] =
           Some [of_nat (v0 * 4 + v1 div 16), of_nat (v1 mod 16 * 16 + v2 div 4)]"
  using assms by (simp add: b64val_b64char unat_b64pad b64char_not_pad)

lemma b64decode_group:
  assumes "v0 < 64" "v1 < 64" "v2 < 64" "v3 < 64"
  shows "b64decode (unat (b64char v0) # unat (b64char v1) # unat (b64char v2)
                    # unat (b64char v3) # r) =
           map_option (\<lambda>bs. of_nat (v0 * 4 + v1 div 16) # of_nat (v1 mod 16 * 16 + v2 div 4)
                             # of_nat (v2 mod 4 * 64 + v3) # bs) (b64decode r)"
  using assms by (simp add: b64val_b64char b64char_not_pad)

lemma b64_chunk1: "b64decode (map unat (b64encode [a])) = Some [a]"
proof -
  define x where "x = unat a"
  define v0 v1 where "v0 = x div 4" and "v1 = x mod 4 * 16"
  have lt: "x < 256" by (simp add: x_def byte_lt)
  have enc: "b64encode [a] = [b64char v0, b64char v1, b64pad, b64pad]"
    by (simp add: Let_def v0_def v1_def x_def)
  have bounds: "v0 < 64" "v1 < 64"
    unfolding v0_def v1_def by (rule sextet_hi [OF lt], rule sextet_tail1)
  have "v0 * 4 + v1 div 16 = x"
    unfolding v0_def v1_def by (rule join_first_tail)
  then have ba: "(of_nat (v0 * 4 + v1 div 16) :: byte) = a"
    by (simp only: x_def of_nat_unat_byte)
  show ?thesis
    by (simp only: enc list.map b64decode_pad2 [OF bounds] ba)
qed

lemma b64_chunk2: "b64decode (map unat (b64encode [a, b])) = Some [a, b]"
proof -
  define x y where "x = unat a" and "y = unat b"
  define v0 v1 v2 where "v0 = x div 4" and "v1 = x mod 4 * 16 + y div 16"
    and "v2 = y mod 16 * 4"
  have lt: "x < 256" "y < 256" by (simp_all add: x_def y_def byte_lt)
  have enc: "b64encode [a, b] = [b64char v0, b64char v1, b64char v2, b64pad]"
    by (simp add: Let_def v0_def v1_def v2_def x_def y_def)
  have bounds: "v0 < 64" "v1 < 64" "v2 < 64"
    unfolding v0_def v1_def v2_def
    by (rule sextet_hi [OF lt(1)], rule sextet_mid1 [OF lt(2)], rule sextet_tail2)
  have "v0 * 4 + v1 div 16 = x"
    unfolding v0_def v1_def by (rule join_first [OF lt(2)])
  then have ba: "(of_nat (v0 * 4 + v1 div 16) :: byte) = a"
    by (simp only: x_def of_nat_unat_byte)
  have "v1 mod 16 * 16 + v2 div 4 = y"
    unfolding v1_def v2_def by (rule join_second_tail [OF lt(2)])
  then have bb: "(of_nat (v1 mod 16 * 16 + v2 div 4) :: byte) = b"
    by (simp only: y_def of_nat_unat_byte)
  show ?thesis
    by (simp only: enc list.map b64decode_pad1 [OF bounds] ba bb)
qed

lemma b64_chunk3:
  "b64decode (map unat (b64encode (a # b # c # rest))) =
     map_option (\<lambda>bs. a # b # c # bs) (b64decode (map unat (b64encode rest)))"
proof -
  define x y z where "x = unat a" and "y = unat b" and "z = unat c"
  define v0 v1 v2 v3 where "v0 = x div 4" and "v1 = x mod 4 * 16 + y div 16"
    and "v2 = y mod 16 * 4 + z div 64" and "v3 = z mod 64"
  have lt: "x < 256" "y < 256" "z < 256" by (simp_all add: x_def y_def z_def byte_lt)
  have enc: "b64encode (a # b # c # rest) =
               b64char v0 # b64char v1 # b64char v2 # b64char v3 # b64encode rest"
    by (simp add: Let_def v0_def v1_def v2_def v3_def x_def y_def z_def)
  have bounds: "v0 < 64" "v1 < 64" "v2 < 64" "v3 < 64"
    unfolding v0_def v1_def v2_def v3_def
    by (rule sextet_hi [OF lt(1)], rule sextet_mid1 [OF lt(2)], rule sextet_mid2 [OF lt(3)])
       simp
  have "v0 * 4 + v1 div 16 = x"
    unfolding v0_def v1_def by (rule join_first [OF lt(2)])
  then have ba: "(of_nat (v0 * 4 + v1 div 16) :: byte) = a"
    by (simp only: x_def of_nat_unat_byte)
  have "v1 mod 16 * 16 + v2 div 4 = y"
    unfolding v1_def v2_def by (rule join_second [OF lt(2) lt(3)])
  then have bb: "(of_nat (v1 mod 16 * 16 + v2 div 4) :: byte) = b"
    by (simp only: y_def of_nat_unat_byte)
  have "v2 mod 4 * 64 + v3 = z"
    unfolding v2_def v3_def by (rule join_third [OF lt(3)])
  then have bc: "(of_nat (v2 mod 4 * 64 + v3) :: byte) = c"
    by (simp only: z_def of_nat_unat_byte)
  show ?thesis
    by (simp only: enc list.map b64decode_group [OF bounds] ba bb bc)
qed

lemma b64_round_trip: "b64decode (map unat (b64encode bs)) = Some bs"
proof (induction bs rule: b64encode.induct)
  case 1
  show ?case by simp
next
  case (2 a)
  show ?case by (rule b64_chunk1)
next
  case (3 a b)
  show ?case by (rule b64_chunk2)
next
  case (4 a b c rest)
  then show ?case by (simp only: b64_chunk3 option.map)
qed

lemma b64char_ascii_all: "\<forall>n\<in>set [0..<64]. unat (b64char n) < 128"
  by code_simp

lemma b64char_ascii: "n < 64 \<Longrightarrow> unat (b64char n) < 128"
  using b64char_ascii_all by simp

lemma b64encode_ascii: "b \<in> set (b64encode bs) \<Longrightarrow> unat b < 128"
proof (induction bs arbitrary: b rule: b64encode.induct)
  case 1
  then show ?case by simp
next
  case (2 a)
  then show ?case
    by (auto simp: Let_def unat_b64pad b64char_ascii sextet_hi sextet_tail1 byte_lt)
next
  case (3 a b')
  then show ?case
    by (auto simp: Let_def unat_b64pad b64char_ascii sextet_hi sextet_mid1 sextet_tail2
        byte_lt)
next
  case (4 a b' c rest)
  then show ?case
    by (auto simp: Let_def b64char_ascii sextet_hi sextet_mid1 sextet_mid2 byte_lt)
qed

lemma utf8_decode_ascii:
  "(\<And>b. b \<in> set bs \<Longrightarrow> unat b < 128) \<Longrightarrow> utf8_decode bs = Some (map unat bs)"
  by (induction bs) (simp_all add: Let_def)

lemma bytes_decode_b64encode:
  "bytes_decode E (b64encode bs) = Inr (map unat (b64encode bs))"
  by (simp add: bytes_decode_def utf8_decode_ascii b64encode_ascii)

section \<open>What \<open>print\<close> writes\<close>

lemma is_ascii_append [simp]: "is_ascii (a @ b) \<longleftrightarrow> is_ascii a \<and> is_ascii b"
  by (simp add: is_ascii_def)

lemma is_ascii_Nil [simp]: "is_ascii []"
  by (simp add: is_ascii_def)

lemma is_ascii_Cons [simp]: "is_ascii (c # t) \<longleftrightarrow> c < 128 \<and> is_ascii t"
  by (simp add: is_ascii_def)

lemma is_ascii_ascii_text [simp]: "is_ascii (ascii_text m)"
proof -
  have "unat x < 128" for x :: "7 word"
    using unsigned_less [of x, where 'a = nat] by simp
  then show ?thesis
    by (simp add: is_ascii_def ascii_text_def list_all_iff)
qed

lemma is_ascii_attribute_error_get [simp]:
  "is_ascii (str_exc (attribute_error v ''get''))"
  by (cases v) (simp_all add: attribute_error_def lit_def)

lemma is_ascii_no_dict_text [simp]: "is_ascii (no_dict_text body)"
  by (cases body) simp_all

lemma is_ascii_error_prefix [simp]: "is_ascii (lit ''Error sending email: '')"
  by (simp add: lit_def)

lemma print_line_ascii: "is_ascii t \<Longrightarrow> print_line E t = None"
  by (simp add: print_line_def)

lemma is_exception_attribute_error [simp]: "is_exception (attribute_error v name)"
  by (simp add: attribute_error_def)

section \<open>The steps of the handler\<close>

lemma try_no_dict:
  "\<not> returns_dict body \<Longrightarrow>
   send_report_try E body s =
     (Inl (case body of Raises m \<Rightarrow> Exc HTTPException (ascii_text m)
                      | Returns v \<Rightarrow> attribute_error v ''get''), s)"
  by (cases body) (simp_all add: send_report_try_def validate_no_dict)

lemma try_missing:
  "find (field_missing kvs) required_fields = Some f \<Longrightarrow>
   send_report_try E (Returns (JObj kvs)) s =
     (Inr (400, JObj [(lit ''error'', JStr (lit ''Missing required field: '' @ lit f))]), s)"
  by (simp add: send_report_try_def validate_dict)

lemma try_well_formed:
  assumes "well_formed kvs"
  shows "send_report_try E (Returns (JObj kvs)) s =
     (case build_call E (clock E (ticks s)) (request_values kvs) of
        Inl e \<Rightarrow> (Inl e, s\<lparr>ticks := Suc (ticks s)\<rparr>)
      | Inr call \<Rightarrow>
          (case send_email E call of
             Some e \<Rightarrow> (Inl e, s\<lparr>ticks := Suc (ticks s), calls := calls s @ [call]\<rparr>)
           | None \<Rightarrow>
               (Inr (200,
                  JObj [(lit ''success'', JBool True),
                        (lit ''message'',
                         JStr (lit ''Email sent successfully to ''
                               @ format_value E (field_value kvs ''email''))),
                        (lit ''timestamp'', JStr (isoformat (clock E (Suc (ticks s)))))]),
                s\<lparr>ticks := Suc (Suc (ticks s)), calls := calls s @ [call]\<rparr>)))"
proof -
  have v: "validate (JObj kvs) required_fields = Inr None"
    using assms by (simp add: validate_dict find_required_None)
  show ?thesis
    by (simp add: send_report_try_def v extract_well_formed [OF assms] datetime_now_def
        Let_def request_values_def split: sum.splits option.splits)
qed

lemma build_call_encoded:
  assumes "encode_method (field_value kvs ''htmlContent'') = Inr html_bytes"
  shows "build_call E now (request_values kvs) =
     Inr \<lparr>mail_to = field_value kvs ''email'',
          mail_subject =
            lit ''Evaluation Plan for '' @ format_value E (field_value kvs ''programName'')
            @ lit '' - '' @ format_value E (field_value kvs ''organizationName''),
          mail_text =
            email_body (format_value E (field_value kvs ''programName''))
              (format_value E (field_value kvs ''organizationName'')) (strftime_report now),
          mail_attachments =
            [\<lparr>filename =
                sanitize E
                  (format_value E (field_value kvs ''organizationName'') @ lit ''_''
                   @ format_value E (field_value kvs ''programName'')
                   @ lit ''_Evaluation_Plan.html''),
              content = map unat (b64encode html_bytes),
              contentType = lit ''text/html'', encoding = lit ''base64''\<rparr>]\<rparr>"
  by (simp add: build_call_def request_values_def assms bytes_decode_b64encode Let_def)

lemma build_call_not_encoded:
  assumes "encode_method (field_value kvs ''htmlContent'') = Inl e"
  shows "build_call E now (request_values kvs) = Inl e"
  by (simp add: build_call_def request_values_def assms Let_def)

lemma first_missing:
  assumes "\<exists>f \<in> set fs. field_missing kvs f"
  shows "\<exists>before f after. fs = before @ f # after \<and> field_missing kvs f
           \<and> (\<forall>g \<in> set before. \<not> field_missing kvs g)
           \<and> find (field_missing kvs) fs = Some f"
proof -
  from assms obtain before f after where
    d: "fs = before @ f # after" "field_missing kvs f"
       "\<forall>g \<in> set before. \<not> field_missing kvs g"
    using split_list_first_prop [of fs "field_missing kvs"] by blast
  have "find (field_missing kvs) fs = Some f"
    unfolding d(1) using d(2,3) by (induction before) auto
  with d show ?thesis by blast
qed

text \<open>What the \<open>except\<close> clause makes of the outcome of the \<open>try\<close>.\<close>

lemma send_report_returned:
  "send_report_try E body s = (Inr resp, s1) \<Longrightarrow> send_report E body s = (Inr resp, s1)"
  by (simp add: send_report_def)

lemma send_report_caught:
  assumes "send_report_try E body s = (Inl e, s1)"
    and "is_exception e"
    and "print_line E (lit ''Error sending email: '' @ str_exc e) = None"
  shows "send_report E body s =
     (Inr (500, JObj [(lit ''error'', JStr (lit ''Failed to send email: '' @ str_exc e))]),
      s1\<lparr>stdout := stdout s1 @ [lit ''Error sending email: '' @ str_exc e]\<rparr>)"
  using assms by (simp add: send_report_def)

lemma send_report_print_raises:
  assumes "send_report_try E body s = (Inl e, s1)"
    and "is_exception e"
    and "print_line E (lit ''Error sending email: '' @ str_exc e) = Some raised"
  shows "send_report E body s = (Inl raised, s1)"
  using assms by (simp add: send_report_def)

lemma send_report_not_caught:
  assumes "send_report_try E body s = (Inl e, s1)"
    and "\<not> is_exception e"
  shows "send_report E body s = (Inl e, s1)"
  using assms by (simp add: send_report_def)

lemma send_report_failed:
  assumes "send_report_try E body s = (Inl e, s1)"
  shows "status_of (fst (send_report E body s)) \<noteq> Some 200
         \<and> status_of (fst (send_report E body s)) \<noteq> Some 400"
  using assms by (simp add: send_report_def split: option.splits)

lemma send_report_calls:
  "calls (snd (send_report E body s)) = calls (snd (send_report_try E body s))"
  by (simp add: send_report_def split: prod.splits sum.splits option.splits)

text \<open>The outcomes of \<open>send_report\<close>, one lemma for each way through the handler, and
  the calls each of them makes.\<close>

lemma send_report_missing:
  assumes "find (field_missing kvs) required_fields = Some f"
  shows "send_report E (Returns (JObj kvs)) s =
           (Inr (400, JObj [(lit ''error'', JStr (lit ''Missing required field: '' @ lit f))]),
            s)"
  by (simp add: send_report_returned try_missing [OF assms])

lemma send_report_no_dict:
  assumes "\<not> returns_dict body"
  shows "send_report E body s =
     (Inr (500, JObj [(lit ''error'', JStr (lit ''Failed to send email: '' @ no_dict_text body))]),
      s\<lparr>stdout := stdout s @ [lit ''Error sending email: '' @ no_dict_text body]\<rparr>)"
proof (cases body)
  case (Raises m)
  have "send_report_try E body s = (Inl (Exc HTTPException (ascii_text m)), s)"
    using try_no_dict [OF assms] Raises by simp
  from send_report_caught [OF this] Raises show ?thesis
    by (simp add: print_line_ascii)
next
  case (Returns v)
  have "send_report_try E body s = (Inl (attribute_error v ''get''), s)"
    using try_no_dict [OF assms] Returns by simp
  from send_report_caught [OF this] Returns show ?thesis
    by (simp add: print_line_ascii)
qed

lemma try_unbuilt:
  assumes "well_formed kvs"
    and "build_call E (clock E (ticks s)) (request_values kvs) = Inl e"
  shows "send_report_try E (Returns (JObj kvs)) s = (Inl e, s\<lparr>ticks := Suc (ticks s)\<rparr>)"
  by (simp add: try_well_formed [OF assms(1)] assms(2))

lemma try_raised:
  assumes "well_formed kvs"
    and "build_call E (clock E (ticks s)) (request_values kvs) = Inr c"
    and "send_email E c = Some e"
  shows "send_report_try E (Returns (JObj kvs)) s =
           (Inl e, s\<lparr>ticks := Suc (ticks s), calls := calls s @ [c]\<rparr>)"
  by (simp add: try_well_formed [OF assms(1)] assms(2,3))

lemma send_report_delivered:
  assumes "well_formed kvs"
    and "build_call E (clock E (ticks s)) (request_values kvs) = Inr c"
    and "send_email E c = None"
  shows "send_report E (Returns (JObj kvs)) s =
     (Inr (200,
       JObj [(lit ''success'', JBool True),
             (lit ''message'',
              JStr (lit ''Email sent successfully to ''
                    @ format_value E (field_value kvs ''email''))),
             (lit ''timestamp'', JStr (isoformat (clock E (Suc (ticks s)))))]),
      s\<lparr>ticks := Suc (Suc (ticks s)), calls := calls s @ [c]\<rparr>)"
  by (simp add: send_report_returned try_well_formed [OF assms(1)] assms(2,3))

lemma missing_or_well_formed:
  "(\<exists>f. find (field_missing kvs) required_fields = Some f) \<or> well_formed kvs"
  using find_required_None [of kvs] by (cases "find (field_missing kvs) required_fields") auto

lemma missing_iff_not_well_formed:
  "(\<exists>f \<in> set required_fields. field_missing kvs f) \<longleftrightarrow> \<not> well_formed kvs"
  by (auto simp: required_fields_def well_formed_def field_missing_def)

lemma returns_dict_cases:
  obtains "\<not> returns_dict body" | kvs where "body = Returns (JObj kvs)"
proof (cases body)
  case (Raises m)
  then show ?thesis using that by simp
next
  case (Returns v)
  then show ?thesis using that by (cases v) simp_all
qed

lemma sent_calls_no_dict: "\<not> returns_dict body \<Longrightarrow> sent_calls E body s = []"
  by (simp add: sent_calls_def send_report_no_dict)

lemma sent_calls_missing:
  "find (field_missing kvs) required_fields = Some f \<Longrightarrow>
   sent_calls E (Returns (JObj kvs)) s = []"
  by (simp add: sent_calls_def send_report_missing)

lemma sent_calls_well_formed:
  assumes "well_formed kvs"
  shows "sent_calls E (Returns (JObj kvs)) s =
     (case build_call E (clock E (ticks s)) (request_values kvs) of
        Inl e \<Rightarrow> [] | Inr c \<Rightarrow> [c])"
  by (simp add: sent_calls_def send_report_calls try_well_formed [OF assms]
      split: sum.splits option.splits)

lemma sent_calls_single:
  assumes "sent_calls E (Returns (JObj kvs)) s = [c]"
  shows "well_formed kvs \<and> build_call E (clock E (ticks s)) (request_values kvs) = Inr c"
proof -
  have wf: "well_formed kvs"
    using missing_or_well_formed [of kvs] assms by (auto simp: sent_calls_missing)
  with assms show ?thesis
    by (auto simp: sent_calls_well_formed split: sum.splits)
qed

text \<open>When \<open>encode\<close> succeeds, and the first concrete request worked out.\<close>

lemma encode_utf8_no_surrogate:
  "find is_surrogate h = None \<Longrightarrow> encode_utf8 h = Inr (concat (map utf8_char h))"
  by (simp add: encode_utf8_def)

lemma encode_method_Inr_iff:
  "encode_method v = Inr bs \<longleftrightarrow>
     (\<exists>h. v = JStr h \<and> (\<forall>c \<in> set h. \<not> is_surrogate c) \<and> bs = concat (map utf8_char h))"
  by (cases v) (auto simp: encode_utf8_def find_None_iff find_Some_iff split: option.splits)

lemma acme_values:
  "request_values acme_fields =
     (JStr (lit ''ann@example.org''), JStr (lit ''Youth/2024''), JStr (lit ''Acme Corp!''),
      JStr (lit ''<p>Plan</p>''))"
  by (simp add: request_values_def field_value_def acme_fields_def)

lemma acme_well_formed: "well_formed acme_fields"
  by (simp add: well_formed_def field_value_def acme_fields_def)

lemma plan_html_encodes: "encode_utf8 (lit ''<p>Plan</p>'') = Inr plan_html_bytes"
  by (simp add: encode_utf8_def lit_def is_surrogate_def utf8_char_def plan_html_bytes_def)

lemma plan_html_base64: "map unat (b64encode plan_html_bytes) = lit ''PHA+UGxhbjwvcD4=''"
  by (simp add: plan_html_bytes_def lit_def Let_def b64char_def b64_alphabet_def b64pad_def)

lemma october_stamp:
  "strftime_report (october_clock 0) = lit ''October 12, 2026 at 03:05 PM ''"
  by (simp add: strftime_report_def october_clock_def fmt_B_def fmt_I_def fmt_p_def
      fmt_Z_def zero_pad_def digit_def month_names_def decimal.simps)

lemma acme_filename:
  "sanitize E (lit ''Acme Corp!_Youth/2024_Evaluation_Plan.html'') =
     lit ''AcmeCorp_Youth2024_Evaluation_Plan.html''"
  by (simp add: sanitize_def keep_char_def isalnum_def ascii_alnum_def lit_def)

lemma acme_body:
  "email_body (lit ''Youth/2024'') (lit ''Acme Corp!'') (lit ''October 12, 2026 at 03:05 PM '')
     = mail_text acme_call"
  by (simp add: email_body_def newline_def acme_call_def lit_def)

lemma acme_build:
  "build_call E (october_clock 0) (request_values acme_fields) = Inr acme_call"
proof -
  have "build_call E (october_clock 0) (request_values acme_fields) =
     Inr \<lparr>mail_to = JStr (lit ''ann@example.org''),
          mail_subject = lit ''Evaluation Plan for Youth/2024 - Acme Corp!'',
          mail_text = mail_text acme_call,
          mail_attachments =
            [\<lparr>filename = lit ''AcmeCorp_Youth2024_Evaluation_Plan.html'',
              content = lit ''PHA+UGxhbjwvcD4='',
              contentType = lit ''text/html'', encoding = lit ''base64''\<rparr>]\<rparr>"
    by (simp add: acme_values build_call_def Let_def plan_html_encodes bytes_decode_b64encode
        plan_html_base64 october_stamp acme_filename acme_body lit_append [symmetric])
  also have "\<dots> = Inr acme_call"
    by (simp add: acme_call_def)
  finally show ?thesis .
qed

lemma acme_sent:
  "clock E (ticks s) = october_clock 0 \<Longrightarrow>
   sent_calls E (Returns (JObj acme_fields)) s = [acme_call]"
  by (simp add: sent_calls_well_formed [OF acme_well_formed] acme_build)

lemma sent_call_encoded:
  assumes "sent_calls E (Returns (JObj kvs)) s = [c]"
  shows "\<exists>html_bytes. encode_method (field_value kvs ''htmlContent'') = Inr html_bytes"
proof (cases "encode_method (field_value kvs ''htmlContent'')")
  case (Inl e)
  from sent_calls_single [OF assms] build_call_not_encoded [OF Inl, of E]
  show ?thesis by simp
next
  case (Inr bs)
  then show ?thesis by blast
qed

lemma build_call_other_capability:
  "build_call (E\<lparr>send_email := f, clock := k\<rparr>) now vals = build_call E now vals"
proof -
  have fv: "format_value (E\<lparr>send_email := f, clock := k\<rparr>) v = format_value E v" for v
    by (cases v) simp_all
  have bd: "bytes_decode (E\<lparr>send_email := f, clock := k\<rparr>) bs = bytes_decode E bs" for bs
    by (cases "utf8_decode bs") (simp_all add: bytes_decode_def)
  have kc: "keep_char (E\<lparr>send_email := f, clock := k\<rparr>) = keep_char E"
    by (simp add: fun_eq_iff keep_char_def isalnum_def)
  have sn: "sanitize (E\<lparr>send_email := f, clock := k\<rparr>) name = sanitize E name" for name
    by (simp only: sanitize_def kc)
  show ?thesis
    by (simp only: build_call_def fv bd sn)
qed

section \<open>The two timestamps\<close>

lemma digit_code: "of_char (digit n) = (48 + n mod 10 :: nat)"
proof -
  have "\<forall>k \<in> set [0..<10]. of_char (''0123456789'' ! k) = (48 + k :: nat)"
    by code_simp
  moreover have "n mod 10 \<in> set [0..<10]"
    by simp
  ultimately show ?thesis
    unfolding digit_def by blast
qed

lemma read_digits_append:
  "read_digits (a + b) s acc =
     (case read_digits a s acc of None \<Rightarrow> None | Some (x, r) \<Rightarrow> read_digits b r x)"
  by (induction a s acc rule: read_digits.induct) simp_all

lemma read_one_digit:
  "read_digits (Suc 0) (of_char (digit n) # rest) acc = Some (10 * acc + n mod 10, rest)"
  by (simp add: digit_code)

lemma read_digits_decimal:
  "read_digits (length (decimal n)) (lit (decimal n) @ rest) acc =
     Some (acc * 10 ^ length (decimal n) + n, rest)"
proof (induction n arbitrary: acc rest rule: decimal.induct)
  case (1 n)
  show ?case
  proof (cases "n < 10")
    case True
    then have d: "decimal n = [digit n]"
      by (simp add: decimal.simps)
    show ?thesis
      using True by (simp add: d lit_def digit_code)
  next
    case False
    then have d: "decimal n = decimal (n div 10) @ [digit n]"
      by (subst decimal.simps) simp
    define k where "k = length (decimal (n div 10))"
    have l: "length (decimal n) = k + Suc 0"
      by (simp add: d k_def)
    have s: "lit (decimal n) @ rest = lit (decimal (n div 10)) @ (of_char (digit n) # rest)"
      by (simp add: d lit_def)
    have "read_digits (k + Suc 0) (lit (decimal (n div 10)) @ (of_char (digit n) # rest)) acc
            = read_digits (Suc 0) (of_char (digit n) # rest) (acc * 10 ^ k + n div 10)"
      unfolding read_digits_append k_def using 1 [OF False] by simp
    also have "\<dots> = Some (10 * (acc * 10 ^ k + n div 10) + n mod 10, rest)"
      by (rule read_one_digit)
    also have "10 * (acc * 10 ^ k + n div 10) + n mod 10 = acc * 10 ^ (k + Suc 0) + n"
      by (simp add: algebra_simps)
    finally show ?thesis
      by (simp only: l s)
  qed
qed

lemma length_decimal_le:
  "n < 10 ^ w \<Longrightarrow> 0 < w \<Longrightarrow> length (decimal n) \<le> w"
proof (induction n arbitrary: w rule: decimal.induct)
  case (1 n)
  show ?case
  proof (cases "n < 10")
    case True
    then have "decimal n = [digit n]"
      by (simp add: decimal.simps)
    with 1(3) show ?thesis by simp
  next
    case False
    then have d: "decimal n = decimal (n div 10) @ [digit n]"
      by (subst decimal.simps) simp
    obtain v where w: "w = Suc v"
      using 1(3) by (cases w) simp_all
    have "v \<noteq> 0"
      using False 1(2) w by (cases v) simp_all
    then have v: "0 < v" by simp
    have "n < 10 * 10 ^ v"
      using 1(2) w by simp
    then have "n div 10 < 10 ^ v"
      by (simp add: less_mult_imp_div_less mult.commute)
    from 1(1) [OF False this v] show ?thesis
      by (simp add: d w)
  qed
qed

lemma read_digits_zeros: "read_digits k (replicate k 48 @ s) 0 = read_digits 0 s 0"
  by (induction k) simp_all

lemma read_zero_pad:
  assumes "n < 10 ^ w" and "0 < w"
  shows "read_digits w (lit (zero_pad w n) @ rest) 0 = Some (n, rest)"
proof -
  define l where "l = length (decimal n)"
  define k where "k = w - l"
  have w: "w = k + l"
    using length_decimal_le [OF assms] by (simp add: k_def l_def)
  have z: "lit (zero_pad w n) @ rest = replicate k 48 @ (lit (decimal n) @ rest)"
    by (simp add: zero_pad_def lit_def k_def l_def)
  have "read_digits (k + l) (replicate k 48 @ (lit (decimal n) @ rest)) 0 =
          read_digits l (lit (decimal n) @ rest) 0"
    by (simp add: read_digits_append read_digits_zeros)
  also have "\<dots> = Some (n, rest)"
    unfolding l_def by (simp add: read_digits_decimal)
  finally show ?thesis
    by (simp only: w [symmetric] z)
qed

lemma read_two: "n < 100 \<Longrightarrow> read_digits 2 (lit (zero_pad 2 n) @ rest) 0 = Some (n, rest)"
  by (rule read_zero_pad) simp_all

lemma read_four: "n < 10000 \<Longrightarrow> read_digits 4 (lit (zero_pad 4 n) @ rest) 0 = Some (n, rest)"
  by (rule read_zero_pad) simp_all

lemma read_six: "n < 1000000 \<Longrightarrow> read_digits 6 (lit (zero_pad 6 n) @ rest) 0 = Some (n, rest)"
  by (rule read_zero_pad) simp_all

lemma expect_lit: "expect_char ch (lit [ch] @ rest) = Some rest"
  by (simp add: lit_def)

lemma read_fraction_isoformat:
  assumes "us < 1000000"
  shows "read_fraction (lit (if us = 0 then [] else ''.'' @ zero_pad 6 us)) = Some us"
proof (cases "us = 0")
  case True
  then show ?thesis by (simp add: lit_def)
next
  case False
  have "read_digits 6 (lit (zero_pad 6 us) @ []) 0 = Some (us, [])"
    by (rule read_six [OF assms])
  then show ?thesis
    using False by (simp add: lit_def)
qed

text \<open>The timestamp \<open>isoformat\<close> writes reads back as the reading of the clock it was
  written from.\<close>

lemma iso8601_round_trip:
  assumes "valid_datetime t"
  shows "iso8601_read (isoformat t) = Some t"
proof -
  from assms have b: "year t < 10000" "month t < 100" "day t < 100" "hour t < 100"
    "minute t < 100" "second t < 100" "microsecond t < 1000000"
    by (simp_all add: valid_datetime_def)
  have i: "isoformat t =
      lit (zero_pad 4 (year t)) @ lit ''-'' @ lit (zero_pad 2 (month t)) @ lit ''-''
      @ lit (zero_pad 2 (day t)) @ lit ''T'' @ lit (zero_pad 2 (hour t)) @ lit '':''
      @ lit (zero_pad 2 (minute t)) @ lit '':'' @ lit (zero_pad 2 (second t))
      @ lit (if microsecond t = 0 then [] else ''.'' @ zero_pad 6 (microsecond t))"
    by (simp only: isoformat_def lit_append)
  show ?thesis
    unfolding i iso8601_read_def
    by (simp only: read_four [OF b(1)] read_two [OF b(2)] read_two [OF b(3)]
        read_two [OF b(4)] read_two [OF b(5)] read_two [OF b(6)] expect_lit
        read_fraction_isoformat [OF b(7)] bind.bind_lunit prod.case datetime.surjective
        unit.exhaust) simp
qed

lemma zero_pad_two: "n < 100 \<Longrightarrow> zero_pad 2 n = two_digits n"
proof (cases "n < 10")
  case True
  then have "decimal n = [digit n]" "n div 10 = 0"
    by (simp_all add: decimal.simps)
  then show ?thesis
    by (simp add: zero_pad_def two_digits_def digit_def)
next
  case False
  assume "n < 100"
  then have "n div 10 < 10" by simp
  then have "decimal (n div 10) = [digit (n div 10)]"
    by (simp add: decimal.simps)
  moreover have "decimal n = decimal (n div 10) @ [digit n]"
    using False by (subst decimal.simps) simp
  ultimately show ?thesis
    by (simp add: zero_pad_def two_digits_def)
qed

lemma fmt_B_spec:
  assumes "1 \<le> month t" and "month t \<le> 12"
  shows "fmt_B t = spec_month (month t)"
proof -
  have "\<forall>m \<in> set [1..<13]. month_names ! (m - 1) = spec_month m"
    by code_simp
  moreover have "month t \<in> set [1..<13]"
    using assms by simp
  ultimately show ?thesis
    using assms by (simp add: fmt_B_def)
qed

lemma fmt_I_spec: "hour t < 24 \<Longrightarrow> fmt_I t = two_digits (hour12 (hour t))"
proof -
  assume h: "hour t < 24"
  have e: "(if hour t mod 12 = 0 then 12 else hour t mod 12) = hour12 (hour t)"
  proof -
    have "\<forall>h \<in> set [0..<24]. (if h mod 12 = 0 then 12 else h mod 12) = hour12 h"
      by code_simp
    moreover have "hour t \<in> set [0..<24]"
      using h by simp
    ultimately show ?thesis by blast
  qed
  have "hour12 (hour t) < 100"
    using h by (auto simp: hour12_def)
  then show ?thesis
    by (simp only: fmt_I_def e zero_pad_two)
qed

lemma strftime_spec:
  assumes "valid_datetime t"
  shows "strftime_report t = lit (spec_timestamp t) @ lit '' '' @ lit (fmt_Z t)"
proof -
  from assms have b: "1 \<le> month t" "month t \<le> 12" "day t < 100" "hour t < 24"
    "minute t < 100"
    by (simp_all add: valid_datetime_def)
  show ?thesis
    by (simp add: strftime_report_def spec_timestamp_def fmt_B_spec [OF b(1,2)]
        zero_pad_two [OF b(3)] zero_pad_two [OF b(5)] fmt_I_spec [OF b(4)] fmt_p_def
        lit_def)
qed

text \<open>Three more readings: microseconds in \<open>isoformat\<close>, and midnight and noon on the
  12-hour clock of \<open>strftime\<close>.\<close>

lemma isoformat_microseconds:
  "isoformat \<lparr>year = 2026, month = 1, day = 2, hour = 3, minute = 4, second = 5,
              microsecond = 67\<rparr> = lit ''2026-01-02T03:04:05.000067''"
  by code_simp

lemma strftime_midnight:
  "strftime_report \<lparr>year = 2026, month = 1, day = 2, hour = 0, minute = 7, second = 5,
                    microsecond = 0\<rparr> = lit ''January 02, 2026 at 12:07 AM ''"
  by (simp add: strftime_report_def fmt_B_def fmt_I_def fmt_p_def fmt_Z_def zero_pad_def
      digit_def month_names_def decimal.simps)

lemma strftime_noon:
  "strftime_report \<lparr>year = 2026, month = 12, day = 31, hour = 12, minute = 0, second = 59,
                    microsecond = 0\<rparr> = lit ''December 31, 2026 at 12:00 PM ''"
  by (simp add: strftime_report_def fmt_B_def fmt_I_def fmt_p_def fmt_Z_def zero_pad_def
      digit_def month_names_def decimal.simps)

section \<open>The health endpoint\<close>

text \<open>
  C7. Every \<open>GET /health\<close> is answered with status 200 and the body
  \<open>{status: "healthy", timestamp: <now in ISO 8601>}\<close>, whatever requests the
  server handled before (\<open>earlier\<close>, from any state \<open>s\<close>): the handler has no
  branch that fails and no exception leaves it. The timestamp is the reading \<open>now\<close> of
  the clock at that moment in ISO 8601: read as \<open>YYYY-MM-DDTHH:MM:SS[.ffffff]\<close> it gives
  back the date and the time of \<open>now\<close>.
\<close>

theorem health_always_healthy:
  "(let now = clock E (ticks (snd (serve E earlier s)))
    in fst (handle E GET_health (snd (serve E earlier s))) =
         Inr (200, JObj [(lit ''status'', JStr (lit ''healthy'')),
                         (lit ''timestamp'', JStr (isoformat now))])
       \<and> (valid_datetime now \<longrightarrow> iso8601_read (isoformat now) = Some now))"
  by (simp add: health_check_def datetime_now_def iso8601_round_trip Let_def)

text \<open>After one report was sent at 15:05:07 (two readings of the clock), the health
  check of 15:05:09 answers with the timestamp \<open>2026-10-12T15:05:09\<close>.\<close>

theorem health_always_healthy_witness:
  "valid_datetime (october_clock 2)
   \<and> fst (handle delivering_env GET_health
            (snd (serve delivering_env [POST_send_report (Returns (JObj acme_fields))]
                    idle_world))) =
       Inr (200, JObj [(lit ''status'', JStr (lit ''healthy'')),
                       (lit ''timestamp'', JStr (lit ''2026-10-12T15:05:09''))])
   \<and> iso8601_read (lit ''2026-10-12T15:05:09'') = Some (october_clock 2)"
proof -
  have d: "send_email delivering_env acme_call = None"
    by (simp add: delivering_env_def always_delivers_def)
  have b: "build_call delivering_env (clock delivering_env (ticks idle_world))
             (request_values acme_fields) = Inr acme_call"
    by (simp add: delivering_env_def idle_world_def acme_build)
  have t: "ticks (snd (serve delivering_env [POST_send_report (Returns (JObj acme_fields))]
                         idle_world)) = 2"
    by (simp add: send_report_delivered [OF acme_well_formed b d], simp add: idle_world_def)
  have k: "clock delivering_env 2 = october_clock 2"
    by (simp add: delivering_env_def)
  have v: "valid_datetime (october_clock 2)"
    by (simp add: valid_datetime_def october_clock_def)
  have i: "isoformat (october_clock 2) = lit ''2026-10-12T15:05:09''"
    by (simp add: october_clock_def isoformat_def zero_pad_def decimal.simps digit_def)
  from health_always_healthy
         [of delivering_env "[POST_send_report (Returns (JObj acme_fields))]" idle_world]
  show ?thesis
    unfolding Let_def t k i using v by simp
qed

section \<open>Validation errors\<close>

text \<open>
  C2. When the body is a JSON object in which at least one of the four required fields
  is missing or has a false value, the response is 400 with the body
  \<open>{error: "Missing required field: <f>"}\<close>, where \<open>f\<close> is the first such field in the
  order email, programName, organizationName, htmlContent: every required field before
  \<open>f\<close> is present and true. The state is unchanged.
\<close>

theorem missing_field_gives_400:
  assumes "\<exists>f \<in> set required_fields. field_missing kvs f"
  shows "\<exists>before f after.
           required_fields = before @ f # after \<and> field_missing kvs f
           \<and> (\<forall>g \<in> set before. \<not> field_missing kvs g)
           \<and> send_report E (Returns (JObj kvs)) s =
               (Inr (400, JObj [(lit ''error'',
                                 JStr (lit ''Missing required field: '' @ lit f))]), s)"
proof -
  from first_missing [OF assms] obtain before f after where
    d: "required_fields = before @ f # after" "field_missing kvs f"
       "\<forall>g \<in> set before. \<not> field_missing kvs g"
       "find (field_missing kvs) required_fields = Some f"
    by blast
  from send_report_missing [OF d(4)] d(1,2,3) show ?thesis by blast
qed

text \<open>The request \<open>{email: "ann@example.org", programName: 0}\<close>: three fields are
  missing, and the first of them, \<open>programName\<close>, is the one named.\<close>

theorem missing_field_gives_400_witness:
  "(\<exists>f \<in> set required_fields. field_missing incomplete_fields f) \<and>
   send_report delivering_env (Returns (JObj incomplete_fields)) idle_world =
     (Inr (400, JObj [(lit ''error'', JStr (lit ''Missing required field: programName''))]),
      idle_world)"
proof -
  have m: "field_missing incomplete_fields ''programName''"
    by (simp add: field_missing_def field_value_def incomplete_fields_def)
  have e: "\<not> field_missing incomplete_fields ''email''"
    by (simp add: field_missing_def field_value_def incomplete_fields_def)
  have h: "\<exists>f \<in> set required_fields. field_missing incomplete_fields f"
    using m by (auto simp: required_fields_def)
  from missing_field_gives_400 [OF h, of delivering_env idle_world]
  obtain before f after where
    d: "required_fields = before @ f # after" "field_missing incomplete_fields f"
       "\<forall>g \<in> set before. \<not> field_missing incomplete_fields g"
       "send_report delivering_env (Returns (JObj incomplete_fields)) idle_world =
          (Inr (400, JObj [(lit ''error'', JStr (lit ''Missing required field: '' @ lit f))]),
           idle_world)"
    by blast
  have "f = ''programName''"
  proof (cases before)
    case Nil
    with d(1,2) e show ?thesis by (simp add: required_fields_def)
  next
    case (Cons a list)
    note c1 = this
    show ?thesis
    proof (cases list)
      case Nil
      with c1 d(1) show ?thesis by (simp add: required_fields_def)
    next
      case (Cons b list2)
      with c1 d(1) have "''programName'' \<in> set before"
        by (auto simp: required_fields_def)
      with d(3) m show ?thesis by blast
    qed
  qed
  with d(4) h show ?thesis by (simp add: lit_append [symmetric])
qed

text \<open>
  C3. A request that fails the validation (a JSON object with a required field missing
  or false) is answered with 400 and \<open>send_email\<close> is not called, whatever the
  capability would have done: the record of calls is the one before the request.
\<close>

theorem validation_failure_sends_nothing:
  assumes "\<exists>f \<in> set required_fields. field_missing kvs f"
  shows "status_of (fst (send_report E (Returns (JObj kvs)) s)) = Some 400
         \<and> sent_calls E (Returns (JObj kvs)) s = []
         \<and> calls (snd (send_report E (Returns (JObj kvs)) s)) = calls s"
proof -
  from first_missing [OF assms] obtain f where
    "find (field_missing kvs) required_fields = Some f" by blast
  then show ?thesis
    by (simp add: send_report_missing sent_calls_missing)
qed

text \<open>The incomplete request, with a capability that would raise if it were called.\<close>

theorem validation_failure_sends_nothing_witness:
  "(\<exists>f \<in> set required_fields. field_missing incomplete_fields f)
   \<and> status_of (fst (send_report failing_env (Returns (JObj incomplete_fields)) idle_world))
       = Some 400
   \<and> sent_calls failing_env (Returns (JObj incomplete_fields)) idle_world = []
   \<and> calls (snd (send_report failing_env (Returns (JObj incomplete_fields)) idle_world)) = []"
proof -
  have "field_missing incomplete_fields ''programName''"
    by (simp add: field_missing_def field_value_def incomplete_fields_def)
  then have h: "\<exists>f \<in> set required_fields. field_missing incomplete_fields f"
    by (auto simp: required_fields_def)
  from validation_failure_sends_nothing [OF h, of failing_env idle_world] h
  show ?thesis by (simp add: idle_world_def)
qed

section \<open>A body that is no JSON object\<close>

text \<open>
  C9. When \<open>get_json\<close> raises (no JSON body) or returns a value that is no dict
  (\<open>null\<close>, a list, a string, a number), the response is 500 with the body
  \<open>{error: "Failed to send email: ..."}\<close>, not the 400 of the validation: the
  exception (that of \<open>get_json\<close>, or the \<open>AttributeError\<close> of \<open>data.get\<close>) reaches
  the \<open>except\<close> before any field is checked, and nothing is sent.
\<close>

theorem no_dict_gives_500:
  assumes "\<not> returns_dict body"
  shows "fst (send_report E body s) =
           Inr (500, JObj [(lit ''error'',
                            JStr (lit ''Failed to send email: '' @ no_dict_text body))])
         \<and> status_of (fst (send_report E body s)) \<noteq> Some 400
         \<and> sent_calls E body s = []"
  using assms by (simp add: send_report_no_dict sent_calls_no_dict)

text \<open>The body \<open>null\<close>.\<close>

theorem no_dict_gives_500_witness:
  "\<not> returns_dict (Returns JNull)
   \<and> fst (send_report delivering_env (Returns JNull) idle_world) =
       Inr (500, JObj [(lit ''error'',
                        JStr (lit (''Failed to send email: '' @ [CHR 0x27] @ ''NoneType''
                                   @ [CHR 0x27] @ '' object has no attribute '' @ [CHR 0x27]
                                   @ ''get'' @ [CHR 0x27])))])"
proof -
  have h: "\<not> returns_dict (Returns JNull)" by simp
  from no_dict_gives_500 [OF h, of delivering_env idle_world] h
  show ?thesis by (simp add: attribute_error_def lit_append [symmetric])
qed

section \<open>The success response\<close>

lemma october_second_reading:
  "isoformat (october_clock (Suc 0)) = lit ''2026-10-12T15:05:08''"
  by (simp add: october_clock_def isoformat_def zero_pad_def decimal.simps digit_def)

text \<open>
  C10, as the code has it. Whenever \<open>POST /send-report\<close> answers 200 to a request whose
  \<open>email\<close> field is a string, the \<open>message\<close> of the body is
  \<open>"Email sent successfully to "\<close> followed by exactly that string; the other two
  members are \<open>success: true\<close> and the timestamp of the second clock reading.
\<close>

theorem success_message_echoes_email:
  assumes "status_of (fst (send_report E (Returns (JObj kvs)) s)) = Some 200"
    and "field_value kvs ''email'' = JStr addr"
  shows "fst (send_report E (Returns (JObj kvs)) s) =
           Inr (200,
                JObj [(lit ''success'', JBool True),
                      (lit ''message'', JStr (lit ''Email sent successfully to '' @ addr)),
                      (lit ''timestamp'', JStr (isoformat (clock E (Suc (ticks s)))))])"
proof (cases "well_formed kvs")
  case False
  with missing_or_well_formed [of kvs] obtain f where
    "find (field_missing kvs) required_fields = Some f" by blast
  with assms(1) show ?thesis by (simp add: send_report_missing)
next
  case True
  show ?thesis
  proof (cases "build_call E (clock E (ticks s)) (request_values kvs)")
    case (Inl e)
    from send_report_failed [OF try_unbuilt [OF True Inl]] assms(1)
    show ?thesis by simp
  next
    case (Inr c)
    show ?thesis
    proof (cases "send_email E c")
      case None
      with True Inr assms(2) show ?thesis by (simp add: send_report_delivered)
    next
      case (Some e)
      from send_report_failed [OF try_raised [OF True Inr Some]] assms(1)
      show ?thesis by simp
    qed
  qed
qed

text \<open>The first concrete request, delivered.\<close>

theorem success_message_echoes_email_witness:
  "status_of (fst (send_report delivering_env (Returns (JObj acme_fields)) idle_world))
     = Some 200
   \<and> field_value acme_fields ''email'' = JStr (lit ''ann@example.org'')
   \<and> fst (send_report delivering_env (Returns (JObj acme_fields)) idle_world) =
       Inr (200,
            JObj [(lit ''success'', JBool True),
                  (lit ''message'', JStr (lit ''Email sent successfully to ann@example.org'')),
                  (lit ''timestamp'', JStr (lit ''2026-10-12T15:05:08''))])"
proof -
  have d: "send_email delivering_env acme_call = None"
    by (simp add: delivering_env_def always_delivers_def)
  have b: "build_call delivering_env (clock delivering_env (ticks idle_world))
             (request_values acme_fields) = Inr acme_call"
    by (simp add: delivering_env_def idle_world_def acme_build)
  have h: "status_of (fst (send_report delivering_env (Returns (JObj acme_fields)) idle_world))
             = Some 200"
    by (simp add: send_report_delivered [OF acme_well_formed b d])
  have a: "field_value acme_fields ''email'' = JStr (lit ''ann@example.org'')"
    by (simp add: field_value_def acme_fields_def)
  have t: "isoformat (clock delivering_env (Suc (ticks idle_world))) =
             lit ''2026-10-12T15:05:08''"
    by (simp add: delivering_env_def idle_world_def october_second_reading)
  from success_message_echoes_email [OF h a] h a
  show ?thesis by (simp only: t lit_append [symmetric]) simp
qed

text \<open>C10, as the claim has it, fails when the \<open>email\<close> field is not a string. The
  request that submits the JSON value \<open>true\<close> as its \<open>email\<close> passes the validation, the
  capability of this example returns normally, and the response is 200 with the message
  \<open>Email sent successfully to True\<close>: Python's \<open>str(True)\<close>, not the field as it was
  submitted.\<close>

theorem true_email_counterexample:
  "field_value true_email_fields ''email'' = JBool True
   \<and> fst (send_report delivering_env (Returns (JObj true_email_fields)) idle_world) =
       Inr (200,
            JObj [(lit ''success'', JBool True),
                  (lit ''message'', JStr (lit ''Email sent successfully to True'')),
                  (lit ''timestamp'', JStr (lit ''2026-10-12T15:05:08''))])
   \<and> lit ''Email sent successfully to True'' \<noteq> lit ''Email sent successfully to true''"
proof -
  have w: "well_formed true_email_fields"
    by (simp add: well_formed_def field_value_def true_email_fields_def)
  have a: "field_value true_email_fields ''email'' = JBool True"
    by (simp add: field_value_def true_email_fields_def)
  have e: "encode_method (field_value true_email_fields ''htmlContent'') = Inr plan_html_bytes"
    by (simp add: field_value_def true_email_fields_def plan_html_encodes)
  note b = build_call_encoded
             [OF e, of delivering_env "clock delivering_env (ticks idle_world)"]
  have d: "send_email delivering_env c = None" for c
    by (simp add: delivering_env_def always_delivers_def)
  have t: "isoformat (clock delivering_env (Suc (ticks idle_world))) =
             lit ''2026-10-12T15:05:08''"
    by (simp add: delivering_env_def idle_world_def october_second_reading)
  have "fst (send_report delivering_env (Returns (JObj true_email_fields)) idle_world) =
       Inr (200,
            JObj [(lit ''success'', JBool True),
                  (lit ''message'',
                   JStr (lit ''Email sent successfully to '' @ lit ''True'')),
                  (lit ''timestamp'', JStr (lit ''2026-10-12T15:05:08''))])"
    by (simp add: send_report_delivered [OF w b d] a t)
  then show ?thesis
    using a by (simp add: lit_append [symmetric])
qed

section \<open>Delivery errors\<close>

text \<open>
  C4, as the code has it. For a well-formed request on which \<open>send_email\<close> is called
  (with \<open>c\<close>) and raises an exception \<open>e\<close> that is an \<open>Exception\<close>, when the line
  \<open>"Error sending email: " + str(e)\<close> can be printed on the standard output (it always
  can when \<open>str(e)\<close> is ASCII), the response is 500 with the body
  \<open>{"error": "Failed to send email: " + str(e)}\<close>.
\<close>

theorem delivery_error_gives_500:
  assumes "well_formed kvs"
    and "sent_calls E (Returns (JObj kvs)) s = [c]"
    and "send_email E c = Some e"
    and "is_exception e"
    and "print_line E (lit ''Error sending email: '' @ str_exc e) = None"
  shows "fst (send_report E (Returns (JObj kvs)) s) =
           Inr (500,
                JObj [(lit ''error'', JStr (lit ''Failed to send email: '' @ str_exc e))])"
proof -
  from sent_calls_single [OF assms(2)]
  have b: "build_call E (clock E (ticks s)) (request_values kvs) = Inr c" by simp
  from send_report_caught [OF try_raised [OF assms(1) b assms(3)] assms(4,5)]
  show ?thesis by simp
qed

text \<open>With the text \<open>SMTP timeout\<close> the body is
  \<open>{"error": "Failed to send email: SMTP timeout"}\<close>.\<close>

theorem delivery_error_gives_500_witness:
  "well_formed acme_fields
   \<and> sent_calls failing_env (Returns (JObj acme_fields)) idle_world = [acme_call]
   \<and> send_email failing_env acme_call = Some (Exc OtherException (lit ''SMTP timeout''))
   \<and> is_exception (Exc OtherException (lit ''SMTP timeout''))
   \<and> print_line failing_env (lit ''Error sending email: SMTP timeout'') = None
   \<and> fst (send_report failing_env (Returns (JObj acme_fields)) idle_world) =
       Inr (500, JObj [(lit ''error'', JStr (lit ''Failed to send email: SMTP timeout''))])"
proof -
  have k: "clock failing_env (ticks idle_world) = october_clock 0"
    by (simp add: failing_env_def idle_world_def)
  note c = acme_sent [OF k]
  have r: "send_email failing_env acme_call = Some (Exc OtherException (lit ''SMTP timeout''))"
    by (simp add: failing_env_def smtp_timeout_def)
  have x: "is_exception (Exc OtherException (lit ''SMTP timeout''))"
    by simp
  have p: "print_line failing_env
             (lit ''Error sending email: '' @ str_exc (Exc OtherException (lit ''SMTP timeout'')))
           = None"
    by (simp add: print_line_def lit_def)
  from delivery_error_gives_500 [OF acme_well_formed c r x p] acme_well_formed c r p
  show ?thesis by (simp add: lit_append [symmetric])
qed

text \<open>C4, as the claim has it, fails in two ways on the first concrete request. When the
  capability raises an \<open>Exception\<close> whose text is a lone surrogate and the standard
  output is in UTF-8, the \<open>print\<close> of line 92 raises \<open>UnicodeEncodeError\<close> before the
  500 response is built, and that exception leaves the handler. When the capability
  ends in \<open>sys.exit("SMTP timeout")\<close>, the \<open>SystemExit\<close> is no \<open>Exception\<close>: the
  \<open>except\<close> clause does not catch it and it leaves the handler. Neither request is
  answered with the body \<open>{"error": "Failed to send email: ..."}\<close>.\<close>

theorem delivery_error_escapes_counterexample:
  "well_formed acme_fields
   \<and> sent_calls garbled_env (Returns (JObj acme_fields)) idle_world = [acme_call]
   \<and> send_email garbled_env acme_call = Some (Exc OtherException [0xD800])
   \<and> fst (send_report garbled_env (Returns (JObj acme_fields)) idle_world) =
       Inl (Exc UnicodeEncodeError
              (lit ([CHR 0x27] @ ''utf-8'' @ [CHR 0x27] @ '' codec can'' @ [CHR 0x27]
                    @ ''t encode character '' @ [CHR 0x27, CHR 0x5C] @ ''ud800''
                    @ [CHR 0x27] @ '' in position 21: surrogates not allowed'')))
   \<and> sent_calls exiting_env (Returns (JObj acme_fields)) idle_world = [acme_call]
   \<and> send_email exiting_env acme_call = Some (Exc SystemExit (lit ''SMTP timeout''))
   \<and> fst (send_report exiting_env (Returns (JObj acme_fields)) idle_world) =
       Inl (Exc SystemExit (lit ''SMTP timeout''))"
proof -
  have kg: "clock garbled_env (ticks idle_world) = october_clock 0"
    by (simp add: garbled_env_def idle_world_def)
  have ke: "clock exiting_env (ticks idle_world) = october_clock 0"
    by (simp add: exiting_env_def idle_world_def)
  have bg: "build_call garbled_env (clock garbled_env (ticks idle_world))
              (request_values acme_fields) = Inr acme_call"
    by (simp only: kg acme_build)
  have be: "build_call exiting_env (clock exiting_env (ticks idle_world))
              (request_values acme_fields) = Inr acme_call"
    by (simp only: ke acme_build)
  have rg: "send_email garbled_env acme_call = Some (Exc OtherException [0xD800])"
    by (simp add: garbled_env_def surrogate_failure_def)
  have re: "send_email exiting_env acme_call = Some (Exc SystemExit (lit ''SMTP timeout''))"
    by (simp add: exiting_env_def exits_def)
  have pg: "print_line garbled_env
              (lit ''Error sending email: '' @ str_exc (Exc OtherException [0xD800])) =
            Some (Exc UnicodeEncodeError
              (lit ([CHR 0x27] @ ''utf-8'' @ [CHR 0x27] @ '' codec can'' @ [CHR 0x27]
                    @ ''t encode character '' @ [CHR 0x27, CHR 0x5C] @ ''ud800''
                    @ [CHR 0x27] @ '' in position 21: surrogates not allowed'')))"
    by (simp add: print_line_def garbled_env_def utf8_console_def encode_utf8_def lit_def
        is_surrogate_def surrogate_error_def hex_digit_def decimal.simps digit_def)
  have g: "fst (send_report garbled_env (Returns (JObj acme_fields)) idle_world) =
       Inl (Exc UnicodeEncodeError
              (lit ([CHR 0x27] @ ''utf-8'' @ [CHR 0x27] @ '' codec can'' @ [CHR 0x27]
                    @ ''t encode character '' @ [CHR 0x27, CHR 0x5C] @ ''ud800''
                    @ [CHR 0x27] @ '' in position 21: surrogates not allowed'')))"
    using send_report_print_raises [OF try_raised [OF acme_well_formed bg rg] _ pg]
    by simp
  have e: "fst (send_report exiting_env (Returns (JObj acme_fields)) idle_world) =
       Inl (Exc SystemExit (lit ''SMTP timeout''))"
    using send_report_not_caught [OF try_raised [OF acme_well_formed be re]]
    by simp
  from acme_well_formed acme_sent [OF kg] rg g acme_sent [OF ke] re e
  show ?thesis by simp
qed

section \<open>The message that is sent\<close>

text \<open>
  C5. For a well-formed request, the attachment of the message it sends is named by
  forming \<open>"{organizationName}_{programName}_Evaluation_Plan.html"\<close> and keeping, in
  order, exactly the characters that are alphanumeric or one of \<open>.\<close>, \<open>_\<close>, \<open>-\<close>;
  the others are removed and nothing is put in their place.
\<close>

theorem attachment_filename_sanitized:
  assumes "well_formed kvs"
    and "sent_calls E (Returns (JObj kvs)) s = [c]"
  shows "\<exists>att. mail_attachments c = [att]
           \<and> filename att =
               filter (\<lambda>ch. isalnum E ch \<or> ch \<in> set (lit ''._-''))
                 (format_value E (field_value kvs ''organizationName'') @ lit ''_''
                  @ format_value E (field_value kvs ''programName'')
                  @ lit ''_Evaluation_Plan.html'')"
proof -
  from sent_call_encoded [OF assms(2)] obtain html_bytes where
    e: "encode_method (field_value kvs ''htmlContent'') = Inr html_bytes" by blast
  from sent_calls_single [OF assms(2)]
  have "build_call E (clock E (ticks s)) (request_values kvs) = Inr c" by simp
  then show ?thesis
    unfolding build_call_encoded [OF e] sanitize_def keep_char_def [abs_def] by auto
qed

text \<open>\<open>Acme Corp!\<close> and \<open>Youth/2024\<close> give
  \<open>AcmeCorp_Youth2024_Evaluation_Plan.html\<close>.\<close>

theorem attachment_filename_sanitized_witness:
  "well_formed acme_fields
   \<and> sent_calls delivering_env (Returns (JObj acme_fields)) idle_world = [acme_call]
   \<and> map filename (mail_attachments acme_call) =
       [filter (\<lambda>ch. isalnum delivering_env ch \<or> ch \<in> set (lit ''._-''))
          (lit ''Acme Corp!'' @ lit ''_'' @ lit ''Youth/2024'' @ lit ''_Evaluation_Plan.html'')]
   \<and> map filename (mail_attachments acme_call) =
       [lit ''AcmeCorp_Youth2024_Evaluation_Plan.html'']"
proof -
  have k: "clock delivering_env (ticks idle_world) = october_clock 0"
    by (simp add: delivering_env_def idle_world_def)
  note c = acme_sent [OF k]
  have v: "format_value delivering_env (field_value acme_fields ''organizationName'') =
             lit ''Acme Corp!''"
    "format_value delivering_env (field_value acme_fields ''programName'') = lit ''Youth/2024''"
    by (simp_all add: field_value_def acme_fields_def)
  from attachment_filename_sanitized [OF acme_well_formed c]
  have "map filename (mail_attachments acme_call) =
       [filter (\<lambda>ch. isalnum delivering_env ch \<or> ch \<in> set (lit ''._-''))
          (lit ''Acme Corp!'' @ lit ''_'' @ lit ''Youth/2024'' @ lit ''_Evaluation_Plan.html'')]"
    unfolding v by auto
  moreover have "map filename (mail_attachments acme_call) =
       [lit ''AcmeCorp_Youth2024_Evaluation_Plan.html'']"
    by (simp add: acme_call_def)
  ultimately show ?thesis using acme_well_formed c by simp
qed

lemma email_body_template:
  "email_body program_name organization_name current_datetime =
     lit ''Hello,'' @ [10, 10]
     @ lit ''Attached is the evaluation plan you requested from the LogicalOutcomes Evaluation Planner.''
     @ [10, 10]
     @ lit ''It is for '' @ program_name @ lit '' delivered by '' @ organization_name
     @ lit ''. It was generated on '' @ current_datetime @ lit ''.''
     @ [10, 10]
     @ lit ''This is just a draft. If it is inaccurate, feel free to re-try the Evaluation Planner app but add additional useful information in the form.''
     @ [10, 10]
     @ lit ''If you have any questions, contact support@logicaloutcomes.com.''
     @ [10, 10]
     @ lit ''Best regards,'' @ [10]
     @ lit ''LogicalOutcomes Evaluation Planner''"
  by (simp add: email_body_def newline_def)

text \<open>
  C6, as the code has it. For a well-formed request, the text of the message it sends is
  the template of lines 51-62, written out below (\<open>[10, 10]\<close> is the empty line between
  two paragraphs), with \<open>programName\<close>, \<open>organizationName\<close> and the timestamp put in.
  The timestamp is the reading \<open>now\<close> of the clock, in the server's local time, written
  as \<open>Month Day, Year at HH:MM AM/PM\<close> and followed by a space and the field \<open>%Z\<close> of
  the format, the name of the time zone.
\<close>

theorem email_body_and_timestamp:
  assumes "well_formed kvs"
    and "sent_calls E (Returns (JObj kvs)) s = [c]"
    and "now = clock E (ticks s)"
    and "valid_datetime now"
  shows "mail_text c =
           lit ''Hello,'' @ [10, 10]
           @ lit ''Attached is the evaluation plan you requested from the LogicalOutcomes Evaluation Planner.''
           @ [10, 10]
           @ lit ''It is for '' @ format_value E (field_value kvs ''programName'')
           @ lit '' delivered by '' @ format_value E (field_value kvs ''organizationName'')
           @ lit ''. It was generated on ''
           @ lit (spec_timestamp now) @ lit '' '' @ lit (fmt_Z now) @ lit ''.''
           @ [10, 10]
           @ lit ''This is just a draft. If it is inaccurate, feel free to re-try the Evaluation Planner app but add additional useful information in the form.''
           @ [10, 10]
           @ lit ''If you have any questions, contact support@logicaloutcomes.com.''
           @ [10, 10]
           @ lit ''Best regards,'' @ [10]
           @ lit ''LogicalOutcomes Evaluation Planner''"
proof -
  from sent_call_encoded [OF assms(2)] obtain html_bytes where
    e: "encode_method (field_value kvs ''htmlContent'') = Inr html_bytes" by blast
  from sent_calls_single [OF assms(2)]
  have "build_call E (clock E (ticks s)) (request_values kvs) = Inr c" by simp
  then have "mail_text c =
           email_body (format_value E (field_value kvs ''programName''))
             (format_value E (field_value kvs ''organizationName''))
             (strftime_report now)"
    unfolding build_call_encoded [OF e] assms(3) by auto
  then show ?thesis
    by (simp only: email_body_template strftime_spec [OF assms(4)] append_assoc)
qed

lemma october_spec_timestamp:
  "spec_timestamp (october_clock 0) = ''October 12, 2026 at 03:05 PM''"
  by (simp add: spec_timestamp_def october_clock_def spec_month_def two_digits_def
      hour12_def digit_def decimal.simps)

text \<open>At 15:05 on 12 October 2026 the timestamp is \<open>October 12, 2026 at 03:05 PM\<close>,
  a space and the field \<open>%Z\<close>.\<close>

theorem email_body_and_timestamp_witness:
  "well_formed acme_fields
   \<and> sent_calls delivering_env (Returns (JObj acme_fields)) idle_world = [acme_call]
   \<and> valid_datetime (clock delivering_env (ticks idle_world))
   \<and> mail_text acme_call =
       lit ''Hello,'' @ [10, 10]
       @ lit ''Attached is the evaluation plan you requested from the LogicalOutcomes Evaluation Planner.''
       @ [10, 10]
       @ lit ''It is for Youth/2024 delivered by Acme Corp!. It was generated on October 12, 2026 at 03:05 PM''
       @ lit '' '' @ lit (fmt_Z (october_clock 0)) @ lit ''.''
       @ [10, 10]
       @ lit ''This is just a draft. If it is inaccurate, feel free to re-try the Evaluation Planner app but add additional useful information in the form.''
       @ [10, 10]
       @ lit ''If you have any questions, contact support@logicaloutcomes.com.''
       @ [10, 10]
       @ lit ''Best regards,'' @ [10]
       @ lit ''LogicalOutcomes Evaluation Planner''"
proof -
  have k: "clock delivering_env (ticks idle_world) = october_clock 0"
    by (simp add: delivering_env_def idle_world_def)
  have vd: "valid_datetime (october_clock 0)"
    by (simp add: valid_datetime_def october_clock_def)
  have v: "format_value delivering_env (field_value acme_fields ''organizationName'') =
             lit ''Acme Corp!''"
    "format_value delivering_env (field_value acme_fields ''programName'') = lit ''Youth/2024''"
    by (simp_all add: field_value_def acme_fields_def)
  have j: "lit ''It is for '' @ lit ''Youth/2024'' @ lit '' delivered by '' @ lit ''Acme Corp!''
           @ lit ''. It was generated on '' @ lit ''October 12, 2026 at 03:05 PM'' @ rest
         = lit ''It is for Youth/2024 delivered by Acme Corp!. It was generated on October 12, 2026 at 03:05 PM''
           @ rest" for rest
    by (simp add: lit_def)
  from email_body_and_timestamp [OF acme_well_formed acme_sent [OF k] k [symmetric] vd]
  have "mail_text acme_call =
       lit ''Hello,'' @ [10, 10]
       @ lit ''Attached is the evaluation plan you requested from the LogicalOutcomes Evaluation Planner.''
       @ [10, 10]
       @ lit ''It is for Youth/2024 delivered by Acme Corp!. It was generated on October 12, 2026 at 03:05 PM''
       @ lit '' '' @ lit (fmt_Z (october_clock 0)) @ lit ''.''
       @ [10, 10]
       @ lit ''This is just a draft. If it is inaccurate, feel free to re-try the Evaluation Planner app but add additional useful information in the form.''
       @ [10, 10]
       @ lit ''If you have any questions, contact support@logicaloutcomes.com.''
       @ [10, 10]
       @ lit ''Best regards,'' @ [10]
       @ lit ''LogicalOutcomes Evaluation Planner''"
    by (simp only: v october_spec_timestamp j)
  with acme_well_formed acme_sent [OF k] vd k show ?thesis by simp
qed

text \<open>C6, as the claim has it, with nothing after \<open>PM\<close>: that is not the text sent at
  that moment.\<close>

theorem timestamp_trailing_space_counterexample:
  "sent_calls delivering_env (Returns (JObj acme_fields)) idle_world = [acme_call]
   \<and> mail_text acme_call \<noteq>
       lit ''Hello,'' @ [10, 10]
       @ lit ''Attached is the evaluation plan you requested from the LogicalOutcomes Evaluation Planner.''
       @ [10, 10]
       @ lit ''It is for Youth/2024 delivered by Acme Corp!. It was generated on October 12, 2026 at 03:05 PM.''
       @ [10, 10]
       @ lit ''This is just a draft. If it is inaccurate, feel free to re-try the Evaluation Planner app but add additional useful information in the form.''
       @ [10, 10]
       @ lit ''If you have any questions, contact support@logicaloutcomes.com.''
       @ [10, 10]
       @ lit ''Best regards,'' @ [10]
       @ lit ''LogicalOutcomes Evaluation Planner''"
proof -
  have k: "clock delivering_env (ticks idle_world) = october_clock 0"
    by (simp add: delivering_env_def idle_world_def)
  show ?thesis
    by (simp add: acme_sent [OF k] acme_call_def lit_def)
qed

text \<open>
  C8. The message handed to \<open>send_email\<close> is a function of the request and of the
  clock's reading when the handler starts. Two runs on the same request body that read
  the same time first make the same calls (the same recipient, subject, text and
  attachment), whatever the state each starts in (earlier calls, printed lines, number of
  clock reads), whatever the capability \<open>f\<close> does, and whatever the clock \<open>k\<close> reads
  later.
\<close>

theorem email_message_deterministic:
  assumes "clock E (ticks s) = k (ticks s')"
  shows "sent_calls E body s = sent_calls (E\<lparr>send_email := f, clock := k\<rparr>) body s'"
proof (cases body rule: returns_dict_cases)
  case 1
  then show ?thesis by (simp add: sent_calls_no_dict)
next
  case (2 kvs)
  show ?thesis
  proof (cases "well_formed kvs")
    case False
    with missing_or_well_formed [of kvs] obtain g where
      "find (field_missing kvs) required_fields = Some g" by blast
    with 2 show ?thesis by (simp add: sent_calls_missing)
  next
    case True
    with 2 assms show ?thesis
      by (simp add: sent_calls_well_formed build_call_other_capability)
  qed
qed

text \<open>The first concrete request on a fresh server that delivers, and on a later state of
  a server whose capability fails.\<close>

theorem email_message_deterministic_witness:
  "clock delivering_env (ticks idle_world) = later_clock (ticks later_world)
   \<and> sent_calls delivering_env (Returns (JObj acme_fields)) idle_world =
       sent_calls (delivering_env\<lparr>send_email := smtp_timeout, clock := later_clock\<rparr>)
         (Returns (JObj acme_fields)) later_world
   \<and> sent_calls delivering_env (Returns (JObj acme_fields)) idle_world = [acme_call]"
proof -
  have k: "clock delivering_env (ticks idle_world) = october_clock 0"
    by (simp add: delivering_env_def idle_world_def)
  have h: "clock delivering_env (ticks idle_world) = later_clock (ticks later_world)"
    by (simp add: delivering_env_def idle_world_def later_clock_def later_world_def)
  from email_message_deterministic
         [where E = delivering_env and s = idle_world and k = later_clock
            and s' = later_world and body = "Returns (JObj acme_fields)" and f = smtp_timeout,
          OF h]
    acme_sent [OF k] h
  show ?thesis by simp
qed

section \<open>One call, with the HTML as base64\<close>

text \<open>
  C1, as the code has it. For a well-formed request whose \<open>htmlContent\<close> is a string
  that UTF-8 can encode (\<open>encode_method\<close> gives its bytes: \<open>encode_method_Inr_iff\<close>),
  \<open>send_email\<close> is called exactly once, with exactly one attachment, and base64-decoding
  the attachment's content gives exactly the UTF-8 bytes of \<open>htmlContent\<close>; when that
  call returns normally, the response status is 200.
\<close>

theorem report_sent_once_round_trip:
  assumes "well_formed kvs"
    and "encode_method (field_value kvs ''htmlContent'') = Inr html_bytes"
  shows "\<exists>c att. sent_calls E (Returns (JObj kvs)) s = [c]
           \<and> calls (snd (send_report E (Returns (JObj kvs)) s)) = calls s @ [c]
           \<and> mail_attachments c = [att]
           \<and> b64decode (content att) = Some html_bytes
           \<and> (send_email E c = None \<longrightarrow>
                status_of (fst (send_report E (Returns (JObj kvs)) s)) = Some 200)"
proof -
  obtain c where
    b: "build_call E (clock E (ticks s)) (request_values kvs) = Inr c"
    using build_call_encoded [OF assms(2)] by blast
  have sent: "sent_calls E (Returns (JObj kvs)) s = [c]"
    by (simp add: sent_calls_well_formed [OF assms(1)] b)
  have rec: "calls (snd (send_report E (Returns (JObj kvs)) s)) = calls s @ [c]"
    by (simp add: send_report_calls try_well_formed [OF assms(1)] b split: option.splits)
  obtain att where
    att: "mail_attachments c = [att]" "content att = map unat (b64encode html_bytes)"
    using b unfolding build_call_encoded [OF assms(2)] by auto
  have rt: "b64decode (content att) = Some html_bytes"
    by (simp only: att(2) b64_round_trip)
  have ok: "send_email E c = None \<longrightarrow>
              status_of (fst (send_report E (Returns (JObj kvs)) s)) = Some 200"
    by (simp add: send_report_delivered [OF assms(1) b])
  from sent rec att(1) rt ok show ?thesis by auto
qed

lemma acme_encodes:
  "encode_method (field_value acme_fields ''htmlContent'') = Inr plan_html_bytes"
  by (simp add: field_value_def acme_fields_def plan_html_encodes)

text \<open>The first concrete request: \<open>PHA+UGxhbjwvcD4=\<close> decodes to the bytes of
  \<open><p>Plan</p>\<close>.\<close>

theorem report_sent_once_round_trip_witness:
  "well_formed acme_fields
   \<and> encode_method (field_value acme_fields ''htmlContent'') = Inr plan_html_bytes
   \<and> sent_calls delivering_env (Returns (JObj acme_fields)) idle_world = [acme_call]
   \<and> b64decode (lit ''PHA+UGxhbjwvcD4='') = Some plan_html_bytes
   \<and> status_of (fst (send_report delivering_env (Returns (JObj acme_fields)) idle_world))
       = Some 200"
proof -
  have k: "clock delivering_env (ticks idle_world) = october_clock 0"
    by (simp add: delivering_env_def idle_world_def)
  from report_sent_once_round_trip [OF acme_well_formed acme_encodes, of delivering_env idle_world]
  obtain c att where
    r: "sent_calls delivering_env (Returns (JObj acme_fields)) idle_world = [c]"
       "mail_attachments c = [att]"
       "b64decode (content att) = Some plan_html_bytes"
       "send_email delivering_env c = None \<longrightarrow>
          status_of (fst (send_report delivering_env (Returns (JObj acme_fields)) idle_world))
            = Some 200"
    by auto
  from r(1) acme_sent [OF k] have c: "c = acme_call" by simp
  with r(2) have "content att = lit ''PHA+UGxhbjwvcD4=''"
    by (auto simp: acme_call_def)
  with r(3) have d: "b64decode (lit ''PHA+UGxhbjwvcD4='') = Some plan_html_bytes" by simp
  have "send_email delivering_env c = None"
    by (simp add: delivering_env_def always_delivers_def)
  with r(4) have
    "status_of (fst (send_report delivering_env (Returns (JObj acme_fields)) idle_world))
       = Some 200"
    by simp
  with acme_well_formed acme_encodes acme_sent [OF k] d show ?thesis by simp
qed

text \<open>The request whose \<open>htmlContent\<close> is the one-character string of the lone
  surrogate \<open>U+D800\<close>: all four fields are present, non-empty strings, but a lone
  surrogate has no UTF-8 encoding and \<open>encode\<close> raises.\<close>

lemma surrogate_well_formed: "well_formed surrogate_fields"
  by (simp add: well_formed_def field_value_def surrogate_fields_def)

lemma surrogate_not_encoded:
  "encode_method (field_value surrogate_fields ''htmlContent'') =
     Inl (Exc UnicodeEncodeError
            (lit ([CHR 0x27] @ ''utf-8'' @ [CHR 0x27] @ '' codec can'' @ [CHR 0x27]
                  @ ''t encode character '' @ [CHR 0x27, CHR 0x5C] @ ''ud800'' @ [CHR 0x27]
                  @ '' in position 0: surrogates not allowed'')))"
  by (simp add: field_value_def surrogate_fields_def encode_utf8_def is_surrogate_def
      surrogate_error_def hex_digit_def decimal.simps digit_def)

text \<open>C1, as the claim has it, fails on that request although the capability would return
  normally: the response is 500 and \<open>send_email\<close> is not called.\<close>

theorem surrogate_html_counterexample:
  "well_formed surrogate_fields
   \<and> fst (send_report delivering_env (Returns (JObj surrogate_fields)) idle_world) =
       Inr (500, JObj [(lit ''error'',
                        JStr (lit (''Failed to send email: '' @ [CHR 0x27] @ ''utf-8''
                                   @ [CHR 0x27] @ '' codec can'' @ [CHR 0x27]
                                   @ ''t encode character '' @ [CHR 0x27, CHR 0x5C] @ ''ud800''
                                   @ [CHR 0x27] @ '' in position 0: surrogates not allowed'')))])
   \<and> sent_calls delivering_env (Returns (JObj surrogate_fields)) idle_world = []"
proof -
  note b = build_call_not_encoded [OF surrogate_not_encoded]
  note t = try_unbuilt [OF surrogate_well_formed b]
  have p: "print_line delivering_env
             (lit ''Error sending email: ''
              @ str_exc (Exc UnicodeEncodeError
                  (lit ([CHR 0x27] @ ''utf-8'' @ [CHR 0x27] @ '' codec can'' @ [CHR 0x27]
                        @ ''t encode character '' @ [CHR 0x27, CHR 0x5C] @ ''ud800''
                        @ [CHR 0x27] @ '' in position 0: surrogates not allowed'')))) = None"
    by (simp add: print_line_def lit_def)
  from send_report_caught [OF t _ p]
  have "fst (send_report delivering_env (Returns (JObj surrogate_fields)) idle_world) =
       Inr (500, JObj [(lit ''error'',
                        JStr (lit ''Failed to send email: ''
                              @ lit ([CHR 0x27] @ ''utf-8''
                                   @ [CHR 0x27] @ '' codec can'' @ [CHR 0x27]
                                   @ ''t encode character '' @ [CHR 0x27, CHR 0x5C] @ ''ud800''
                                   @ [CHR 0x27] @ '' in position 0: surrogates not allowed'')))])"
    by simp
  then show ?thesis
    by (simp add: surrogate_well_formed sent_calls_well_formed [OF surrogate_well_formed] b
        lit_append [symmetric])
qed


end
